theory Spec2Isabelle
  imports Main
begin

section \<open>Local Progress Store (tutor-enrollment.ts)\<close>

text \<open>
  The store keeps three lists in the browser's localStorage. Identifiers, counters and
  percentages are JavaScript numbers that hold integers; they are modelled as \<open>int\<close>
  (NaN and fractional values are outside the model). An optional field \<open>f?: T\<close> is a
  \<open>T option\<close>, \<open>None\<close> standing for \<open>undefined\<close>. Every reading of the clock
  (\<open>new Date().toISOString()\<close>) within one call is the parameter \<open>now\<close>.
\<close>

subsection \<open>Records\<close>

datatype EnrollmentMethod = Free | Purchase | Admin

record EnrollmentData =
  e_courseId :: int
  e_userId :: "int option"
  enrollmentMethod :: EnrollmentMethod
  timestamp :: string

record CourseProgress =
  cp_courseId :: int
  cp_userId :: "int option"
  completedLessons :: "int list"
  completedQuizzes :: "int list"
  completedAssignments :: "int list"
  overallProgress :: int
  lastAccessed :: string
  startDate :: string
  completionDate :: "string option"

record LessonProgress =
  lp_lessonId :: int
  lp_courseId :: int
  lp_userId :: "int option"
  isCompleted :: bool
  progressPercentage :: int
  timeSpent :: int
  lastPosition :: "int option"
  accessedAt :: string
  completedAt :: "string option"

text \<open>
  \<open>Partial<CourseProgress>\<close> and \<open>Partial<LessonProgress>\<close>: each key is absent
  (\<open>None\<close>) or carries a value. For a key that is itself optional the carried value may
  be \<open>undefined\<close> (\<open>Some None\<close>), which the spread \<open>{...old, ...updates}\<close> copies
  over the old value.
\<close>

record CourseProgressUpdates =
  u_courseId :: "int option"
  u_userId :: "int option option"
  u_completedLessons :: "int list option"
  u_completedQuizzes :: "int list option"
  u_completedAssignments :: "int list option"
  u_overallProgress :: "int option"
  u_lastAccessed :: "string option"
  u_startDate :: "string option"
  u_completionDate :: "string option option"

record LessonProgressUpdates =
  v_lessonId :: "int option"
  v_courseId :: "int option"
  v_userId :: "int option option"
  v_isCompleted :: "bool option"
  v_progressPercentage :: "int option"
  v_timeSpent :: "int option"
  v_lastPosition :: "int option option"
  v_accessedAt :: "string option"
  v_completedAt :: "string option option"

definition noCourseUpdates :: CourseProgressUpdates where
  "noCourseUpdates =
     \<lparr>u_courseId = None, u_userId = None, u_completedLessons = None,
      u_completedQuizzes = None, u_completedAssignments = None, u_overallProgress = None,
      u_lastAccessed = None, u_startDate = None, u_completionDate = None\<rparr>"

definition noLessonUpdates :: LessonProgressUpdates where
  "noLessonUpdates =
     \<lparr>v_lessonId = None, v_courseId = None, v_userId = None, v_isCompleted = None,
      v_progressPercentage = None, v_timeSpent = None, v_lastPosition = None,
      v_accessedAt = None, v_completedAt = None\<rparr>"

text \<open>One key of a spread: the update's value when the key is present, else the old one.\<close>

definition spreadKey :: "'a \<Rightarrow> 'a option \<Rightarrow> 'a" where
  "spreadKey old upd = (case upd of None \<Rightarrow> old | Some v \<Rightarrow> v)"

definition spreadCourseProgress :: "CourseProgress \<Rightarrow> CourseProgressUpdates \<Rightarrow> CourseProgress" where
  "spreadCourseProgress p updates =
     \<lparr>cp_courseId = spreadKey (cp_courseId p) (u_courseId updates),
      cp_userId = spreadKey (cp_userId p) (u_userId updates),
      completedLessons = spreadKey (completedLessons p) (u_completedLessons updates),
      completedQuizzes = spreadKey (completedQuizzes p) (u_completedQuizzes updates),
      completedAssignments = spreadKey (completedAssignments p) (u_completedAssignments updates),
      overallProgress = spreadKey (overallProgress p) (u_overallProgress updates),
      lastAccessed = spreadKey (lastAccessed p) (u_lastAccessed updates),
      startDate = spreadKey (startDate p) (u_startDate updates),
      completionDate = spreadKey (completionDate p) (u_completionDate updates)\<rparr>"

definition spreadLessonProgress :: "LessonProgress \<Rightarrow> LessonProgressUpdates \<Rightarrow> LessonProgress" where
  "spreadLessonProgress p updates =
     \<lparr>lp_lessonId = spreadKey (lp_lessonId p) (v_lessonId updates),
      lp_courseId = spreadKey (lp_courseId p) (v_courseId updates),
      lp_userId = spreadKey (lp_userId p) (v_userId updates),
      isCompleted = spreadKey (isCompleted p) (v_isCompleted updates),
      progressPercentage = spreadKey (progressPercentage p) (v_progressPercentage updates),
      timeSpent = spreadKey (timeSpent p) (v_timeSpent updates),
      lastPosition = spreadKey (lastPosition p) (v_lastPosition updates),
      accessedAt = spreadKey (accessedAt p) (v_accessedAt updates),
      completedAt = spreadKey (completedAt p) (v_completedAt updates)\<rparr>"

subsection \<open>Storage utilities\<close>

text \<open>
  \<open>window_defined\<close> is \<open>typeof window !== 'undefined'\<close>. Without a window
  \<open>getStorageData\<close> returns its default and \<open>setStorageData\<close> writes nothing.
  A key that was never written reads as the default \<open>[]\<close>, which is how the three
  lists start. localStorage itself raising (quota, unparsable text) is not modelled.
\<close>

record Storage =
  window_defined :: bool
  ENROLLMENTS :: "EnrollmentData list"
  COURSE_PROGRESS :: "CourseProgress list"
  LESSON_PROGRESS :: "LessonProgress list"

definition emptyStorage :: Storage where
  "emptyStorage =
     \<lparr>window_defined = True, ENROLLMENTS = [], COURSE_PROGRESS = [], LESSON_PROGRESS = []\<rparr>"

definition getStorageData :: "(Storage \<Rightarrow> 'a) \<Rightarrow> 'a \<Rightarrow> Storage \<Rightarrow> 'a" where
  "getStorageData key defaultValue s = (if \<not> window_defined s then defaultValue else key s)"

definition setStorageData :: "(Storage \<Rightarrow> Storage) \<Rightarrow> Storage \<Rightarrow> Storage" where
  "setStorageData write s = (if \<not> window_defined s then s else write s)"

text \<open>\<open>!userId\<close>: an omitted user id and the user id 0 are both falsy.\<close>

definition falsy :: "int option \<Rightarrow> bool" where
  "falsy userId = (userId = None \<or> userId = Some 0)"

text \<open>\<open>Array.prototype.findIndex\<close>, with \<open>None\<close> for the result -1.\<close>

fun findIndex :: "('a \<Rightarrow> bool) \<Rightarrow> 'a list \<Rightarrow> nat option" where
  "findIndex P [] = None"
| "findIndex P (x # xs) = (if P x then Some 0 else map_option Suc (findIndex P xs))"

subsection \<open>Enrollment functions\<close>

definition isEnrolledInCourse :: "int \<Rightarrow> int option \<Rightarrow> Storage \<Rightarrow> bool" where
  "isEnrolledInCourse courseId userId s =
     (let enrollments = getStorageData ENROLLMENTS [] s
      in list_ex (\<lambda>enrollment. e_courseId enrollment = courseId \<and>
                    (falsy userId \<or> e_userId enrollment = userId)) enrollments)"

definition getCourseProgress :: "int \<Rightarrow> int option \<Rightarrow> Storage \<Rightarrow> CourseProgress option" where
  "getCourseProgress courseId userId s =
     (let progressData = getStorageData COURSE_PROGRESS [] s
      in find (\<lambda>p. cp_courseId p = courseId \<and> (falsy userId \<or> cp_userId p = userId))
           progressData)"

definition initializeCourseProgress :: "string \<Rightarrow> int \<Rightarrow> int option \<Rightarrow> Storage \<Rightarrow> Storage" where
  "initializeCourseProgress now courseId userId s =
     (let progressData = getStorageData COURSE_PROGRESS [] s;
          existingProgress =
            find (\<lambda>p. cp_courseId p = courseId \<and> (falsy userId \<or> cp_userId p = userId))
              progressData
      in if existingProgress = None then
           (let newProgress =
                  \<lparr>cp_courseId = courseId, cp_userId = userId, completedLessons = [],
                   completedQuizzes = [], completedAssignments = [], overallProgress = 0,
                   lastAccessed = now, startDate = now, completionDate = None\<rparr>
            in setStorageData (\<lambda>w. w\<lparr>COURSE_PROGRESS := progressData @ [newProgress]\<rparr>) s)
         else s)"

text \<open>
  \<open>enrollInFreeCourse\<close> resolves \<open>false\<close> only from its \<open>catch\<close> block; the helpers
  it calls swallow their own errors, so the model always returns \<open>True\<close>.
\<close>

definition enrollInFreeCourse :: "string \<Rightarrow> int \<Rightarrow> int option \<Rightarrow> Storage \<Rightarrow> bool \<times> Storage" where
  "enrollInFreeCourse now courseId userId s =
     (let enrollments = getStorageData ENROLLMENTS [] s
      in if isEnrolledInCourse courseId userId s then (True, s)
         else
           (let newEnrollment =
                  \<lparr>e_courseId = courseId, e_userId = userId, enrollmentMethod = Free,
                   timestamp = now\<rparr>;
                s1 = setStorageData (\<lambda>w. w\<lparr>ENROLLMENTS := enrollments @ [newEnrollment]\<rparr>) s
            in (True, initializeCourseProgress now courseId userId s1)))"

definition removeCourseProgress :: "int \<Rightarrow> int option \<Rightarrow> Storage \<Rightarrow> Storage" where
  "removeCourseProgress courseId userId s =
     (let progressData = getStorageData COURSE_PROGRESS [] s;
          filteredProgress =
            filter (\<lambda>p. \<not> (cp_courseId p = courseId \<and> (falsy userId \<or> cp_userId p = userId)))
              progressData
      in setStorageData (\<lambda>w. w\<lparr>COURSE_PROGRESS := filteredProgress\<rparr>) s)"

definition unenrollFromCourse :: "int \<Rightarrow> int option \<Rightarrow> Storage \<Rightarrow> bool \<times> Storage" where
  "unenrollFromCourse courseId userId s =
     (let enrollments = getStorageData ENROLLMENTS [] s;
          filteredEnrollments =
            filter (\<lambda>enrollment. \<not> (e_courseId enrollment = courseId \<and>
                      (falsy userId \<or> e_userId enrollment = userId))) enrollments;
          s1 = setStorageData (\<lambda>w. w\<lparr>ENROLLMENTS := filteredEnrollments\<rparr>) s
      in (True, removeCourseProgress courseId userId s1))"

subsection \<open>Progress tracking functions\<close>

definition updateCourseProgress ::
  "string \<Rightarrow> int \<Rightarrow> CourseProgressUpdates \<Rightarrow> int option \<Rightarrow> Storage \<Rightarrow> Storage" where
  "updateCourseProgress now courseId updates userId s =
     (let progressData = getStorageData COURSE_PROGRESS [] s
      in case findIndex (\<lambda>p. cp_courseId p = courseId \<and> (falsy userId \<or> cp_userId p = userId))
                progressData of
           None \<Rightarrow> s
         | Some index \<Rightarrow>
             setStorageData
               (\<lambda>w. w\<lparr>COURSE_PROGRESS :=
                        progressData[index :=
                          (spreadCourseProgress (progressData ! index) updates)
                            \<lparr>lastAccessed := now\<rparr>]\<rparr>) s)"

text \<open>
  \<open>Math.round((totalCompleted / estimatedTotal) * 100)\<close> with \<open>estimatedTotal > 0\<close>:
  rounding half up, \<open>\<lfloor>100 t / e + 1/2\<rfloor> = (200 t + e) div (2 e)\<close>. The quotient is a
  multiple of 10 when \<open>t \<le> 10\<close> and is 1 otherwise, so the double arithmetic of the source
  rounds to the same integer.
\<close>

definition calculateOverallProgress :: "int \<Rightarrow> int option \<Rightarrow> Storage \<Rightarrow> int" where
  "calculateOverallProgress courseId userId s =
     (case getCourseProgress courseId userId s of
        None \<Rightarrow> 0
      | Some courseProgress \<Rightarrow>
          (let totalCompleted =
                 int (length (completedLessons courseProgress)) +
                 int (length (completedQuizzes courseProgress)) +
                 int (length (completedAssignments courseProgress));
               estimatedTotal = max totalCompleted 10
           in min ((200 * totalCompleted + estimatedTotal) div (2 * estimatedTotal)) 100))"

subsection \<open>Lesson progress functions\<close>

definition markLessonCompleted :: "string \<Rightarrow> int \<Rightarrow> int \<Rightarrow> int option \<Rightarrow> Storage \<Rightarrow> Storage" where
  "markLessonCompleted now lessonId courseId userId s =
     (let lessonProgressData = getStorageData LESSON_PROGRESS [] s;
          existingIndex =
            findIndex (\<lambda>p. lp_lessonId p = lessonId \<and> lp_courseId p = courseId \<and>
                         (falsy userId \<or> lp_userId p = userId)) lessonProgressData;
          lessonProgressData' =
            (case existingIndex of
               Some i \<Rightarrow>
                 lessonProgressData[i :=
                   (lessonProgressData ! i)
                     \<lparr>isCompleted := True, progressPercentage := 100,
                      completedAt := Some now, accessedAt := now\<rparr>]
             | None \<Rightarrow>
                 lessonProgressData @
                   [\<lparr>lp_lessonId = lessonId, lp_courseId = courseId, lp_userId = userId,
                     isCompleted = True, progressPercentage = 100, timeSpent = 0,
                     lastPosition = None, accessedAt = now, completedAt = Some now\<rparr>]);
          s1 = setStorageData (\<lambda>w. w\<lparr>LESSON_PROGRESS := lessonProgressData'\<rparr>) s
      in case getCourseProgress courseId userId s1 of
           None \<Rightarrow> s1
         | Some courseProgress \<Rightarrow>
             (let completedLessons' =
                    (if lessonId \<in> set (completedLessons courseProgress)
                     then completedLessons courseProgress
                     else completedLessons courseProgress @ [lessonId])
              in updateCourseProgress now courseId
                   (noCourseUpdates
                      \<lparr>u_completedLessons := Some completedLessons',
                       u_overallProgress := Some (calculateOverallProgress courseId userId s1)\<rparr>)
                   userId s1))"

definition updateLessonProgress ::
  "string \<Rightarrow> int \<Rightarrow> int \<Rightarrow> LessonProgressUpdates \<Rightarrow> int option \<Rightarrow> Storage \<Rightarrow> Storage" where
  "updateLessonProgress now lessonId courseId updates userId s =
     (let lessonProgressData = getStorageData LESSON_PROGRESS [] s;
          existingIndex =
            findIndex (\<lambda>p. lp_lessonId p = lessonId \<and> lp_courseId p = courseId \<and>
                         (falsy userId \<or> lp_userId p = userId)) lessonProgressData;
          lessonProgressData' =
            (case existingIndex of
               Some i \<Rightarrow>
                 lessonProgressData[i :=
                   (spreadLessonProgress (lessonProgressData ! i) updates)
                     \<lparr>accessedAt := now\<rparr>]
             | None \<Rightarrow>
                 lessonProgressData @
                   [spreadLessonProgress
                      \<lparr>lp_lessonId = lessonId, lp_courseId = courseId, lp_userId = userId,
                       isCompleted = False, progressPercentage = 0, timeSpent = 0,
                       lastPosition = None, accessedAt = now, completedAt = None\<rparr>
                      updates])
      in setStorageData (\<lambda>w. w\<lparr>LESSON_PROGRESS := lessonProgressData'\<rparr>) s)"

definition getLessonProgress :: "int \<Rightarrow> int \<Rightarrow> int option \<Rightarrow> Storage \<Rightarrow> LessonProgress option" where
  "getLessonProgress lessonId courseId userId s =
     (let lessonProgressData = getStorageData LESSON_PROGRESS [] s
      in find (\<lambda>p. lp_lessonId p = lessonId \<and> lp_courseId p = courseId \<and>
                 (falsy userId \<or> lp_userId p = userId)) lessonProgressData)"

definition isLessonCompleted :: "int \<Rightarrow> int \<Rightarrow> int option \<Rightarrow> Storage \<Rightarrow> bool" where
  "isLessonCompleted lessonId courseId userId s =
     (case getLessonProgress lessonId courseId userId s of
        None \<Rightarrow> False
      | Some progress \<Rightarrow> isCompleted progress)"

definition resetAllCourseData :: "Storage \<Rightarrow> Storage" where
  "resetAllCourseData s =
     (if window_defined s
      then s\<lparr>ENROLLMENTS := [], COURSE_PROGRESS := [], LESSON_PROGRESS := []\<rparr>
      else s)"

section \<open>Sync Coordinator (tutor-enrollment-sync.ts)\<close>

text \<open>
  The coordinator's fields are a record that each method takes and returns next to the
  store. The API client is opaque. A queued closure is the remote call it will make; it
  reads \<open>this.apiClient\<close> and \<open>this.userId\<close> when it runs. What the remote side
  answers is an argument of each method: the awaited promise either rejects (with the
  message of the error, if it is an \<open>Error\<close>) or resolves to the envelope
  \<open>{success, data}\<close>. A method runs to its end before another one starts.
\<close>

datatype TutorApiClient = TutorApiClient

datatype SyncOperation = EnrollInCourseOp int | MarkLessonCompletedOp int int

record Sync =
  apiClient :: "TutorApiClient option"
  userId :: "int option"
  isOnline :: bool
  syncQueue :: "SyncOperation list"

datatype 'a ApiResponse = Rejected "string option" | Resolved bool "'a option"

record SyncResult =
  success :: bool
  error :: "string option"
  synced_enrollments :: nat
  synced_progress :: nat
  synced_lessons :: nat

text \<open>The progress object of the remote answer: parsed JSON, any key of which may be missing.\<close>

record ServerProgress =
  s_completedLessons :: "int list option"
  s_completedQuizzes :: "int list option"
  s_completedAssignments :: "int list option"
  s_overallProgress :: "int option"
  s_lastAccessed :: "string option"
  s_startDate :: "string option"
  s_completionDate :: "string option"

text \<open>
  Truthiness for the \<open>||\<close> chains of the merge: an array is truthy even when empty, a
  number unless it is 0, a string unless it is empty; \<open>undefined\<close> never is.
\<close>

definition truthyStr :: "string option \<Rightarrow> bool" where
  "truthyStr t = (t \<noteq> None \<and> t \<noteq> Some [])"

definition remoteCapable :: "Sync \<Rightarrow> bool" where
  "remoteCapable sy = (isOnline sy \<and> apiClient sy \<noteq> None \<and> \<not> falsy (userId sy))"

definition addToSyncQueue :: "SyncOperation \<Rightarrow> Sync \<Rightarrow> Sync" where
  "addToSyncQueue operation sy = sy\<lparr>syncQueue := syncQueue sy @ [operation]\<rparr>"

text \<open>
  The loop of \<open>processSyncQueue\<close> over the snapshot. \<open>throws i\<close> says whether the
  \<open>i\<close>-th awaited operation of this drain rejects. An operation that resolves counts
  as done whatever envelope it resolves to: the closure does not look at the result. The
  second result is the log of the operations that were awaited, in order.
\<close>

fun replay ::
  "(nat \<Rightarrow> bool) \<Rightarrow> nat \<Rightarrow> SyncOperation list \<Rightarrow> Sync \<Rightarrow> SyncOperation list
     \<Rightarrow> Sync \<times> SyncOperation list" where
  "replay throws i [] sy calls = (sy, calls)"
| "replay throws i (operation # queue) sy calls =
     (if throws i
      then replay throws (Suc i) queue (sy\<lparr>syncQueue := syncQueue sy @ [operation]\<rparr>)
             (calls @ [operation])
      else replay throws (Suc i) queue sy (calls @ [operation]))"

definition processSyncQueue :: "(nat \<Rightarrow> bool) \<Rightarrow> Sync \<Rightarrow> Sync \<times> SyncOperation list" where
  "processSyncQueue throws sy =
     (if \<not> isOnline sy \<or> apiClient sy = None then (sy, [])
      else (let queue = syncQueue sy
            in replay throws 0 queue (sy\<lparr>syncQueue := []\<rparr>) []))"

subsection \<open>Enrollment methods\<close>

text \<open>
  \<open>isUserEnrolled\<close> of the client always fills \<open>data\<close> with a boolean, so its
  answer is \<open>Resolved success (Some data)\<close>. An answer without data is falsy where the
  method tests and returns it, and is read as \<open>false\<close> here.
\<close>

definition sync_isEnrolledInCourse ::
  "string \<Rightarrow> bool ApiResponse \<Rightarrow> int \<Rightarrow> Sync \<Rightarrow> Storage \<Rightarrow> bool \<times> Storage" where
  "sync_isEnrolledInCourse now serverResult courseId sy s =
     (let localResult = isEnrolledInCourse courseId (userId sy) s
      in if remoteCapable sy then
           (case serverResult of
              Rejected e \<Rightarrow> (localResult, s)
            | Resolved ok d \<Rightarrow>
                (let serverData = (d = Some True)
                 in if ok \<and> serverData \<noteq> localResult then
                      (if serverData \<and> \<not> localResult
                       then (serverData, snd (enrollInFreeCourse now courseId (userId sy) s))
                       else (serverData, s))
                    else (localResult, s)))
         else (localResult, s))"

definition sync_enrollInFreeCourse ::
  "string \<Rightarrow> unit ApiResponse \<Rightarrow> int \<Rightarrow> Sync \<Rightarrow> Storage \<Rightarrow> bool \<times> Sync \<times> Storage" where
  "sync_enrollInFreeCourse now serverResult courseId sy s =
     (let (localSuccess, s1) = enrollInFreeCourse now courseId (userId sy) s
      in if \<not> localSuccess then (False, sy, s1)
         else if remoteCapable sy then
           (case serverResult of
              Rejected e \<Rightarrow> (True, addToSyncQueue (EnrollInCourseOp courseId) sy, s1)
            | Resolved ok d \<Rightarrow>
                (if \<not> ok then (True, addToSyncQueue (EnrollInCourseOp courseId) sy, s1)
                 else (True, sy, s1)))
         else (True, addToSyncQueue (EnrollInCourseOp courseId) sy, s1))"

subsection \<open>Progress methods\<close>

definition sync_markLessonCompleted ::
  "string \<Rightarrow> unit ApiResponse \<Rightarrow> int \<Rightarrow> int \<Rightarrow> Sync \<Rightarrow> Storage \<Rightarrow> Sync \<times> Storage" where
  "sync_markLessonCompleted now serverResult lessonId courseId sy s =
     (let s1 = markLessonCompleted now lessonId courseId (userId sy) s
      in if remoteCapable sy then
           (case serverResult of
              Rejected e \<Rightarrow> (addToSyncQueue (MarkLessonCompletedOp lessonId courseId) sy, s1)
            | Resolved ok d \<Rightarrow>
                (if \<not> ok then (addToSyncQueue (MarkLessonCompletedOp lessonId courseId) sy, s1)
                 else (sy, s1)))
         else (addToSyncQueue (MarkLessonCompletedOp lessonId courseId) sy, s1))"

definition mergeProgress ::
  "string \<Rightarrow> int \<Rightarrow> int option \<Rightarrow> ServerProgress \<Rightarrow> CourseProgress option \<Rightarrow> CourseProgress" where
  "mergeProgress now courseId uid serverProgress localProgress =
     \<lparr>cp_courseId = courseId,
      cp_userId = uid,
      completedLessons =
        (case s_completedLessons serverProgress of
           Some xs \<Rightarrow> xs
         | None \<Rightarrow> (case localProgress of Some l \<Rightarrow> completedLessons l | None \<Rightarrow> [])),
      completedQuizzes =
        (case s_completedQuizzes serverProgress of
           Some xs \<Rightarrow> xs
         | None \<Rightarrow> (case localProgress of Some l \<Rightarrow> completedQuizzes l | None \<Rightarrow> [])),
      completedAssignments =
        (case s_completedAssignments serverProgress of
           Some xs \<Rightarrow> xs
         | None \<Rightarrow> (case localProgress of Some l \<Rightarrow> completedAssignments l | None \<Rightarrow> [])),
      overallProgress =
        (if \<not> falsy (s_overallProgress serverProgress) then the (s_overallProgress serverProgress)
         else (case localProgress of
                 Some l \<Rightarrow> (if overallProgress l \<noteq> 0 then overallProgress l else 0)
               | None \<Rightarrow> 0)),
      lastAccessed =
        (if truthyStr (s_lastAccessed serverProgress) then the (s_lastAccessed serverProgress)
         else (case localProgress of
                 Some l \<Rightarrow> (if lastAccessed l \<noteq> [] then lastAccessed l else now)
               | None \<Rightarrow> now)),
      startDate =
        (if truthyStr (s_startDate serverProgress) then the (s_startDate serverProgress)
         else (case localProgress of
                 Some l \<Rightarrow> (if startDate l \<noteq> [] then startDate l else now)
               | None \<Rightarrow> now)),
      completionDate =
        (if truthyStr (s_completionDate serverProgress) then s_completionDate serverProgress
         else (case localProgress of Some l \<Rightarrow> completionDate l | None \<Rightarrow> None))\<rparr>"

text \<open>The merged record handed to \<open>localUpdateCourseProgress\<close>: every key is present.\<close>

definition asUpdates :: "CourseProgress \<Rightarrow> CourseProgressUpdates" where
  "asUpdates p =
     \<lparr>u_courseId = Some (cp_courseId p), u_userId = Some (cp_userId p),
      u_completedLessons = Some (completedLessons p),
      u_completedQuizzes = Some (completedQuizzes p),
      u_completedAssignments = Some (completedAssignments p),
      u_overallProgress = Some (overallProgress p),
      u_lastAccessed = Some (lastAccessed p), u_startDate = Some (startDate p),
      u_completionDate = Some (completionDate p)\<rparr>"

definition sync_getCourseProgress ::
  "string \<Rightarrow> ServerProgress ApiResponse \<Rightarrow> int \<Rightarrow> Sync \<Rightarrow> Storage
     \<Rightarrow> CourseProgress option \<times> Storage" where
  "sync_getCourseProgress now serverResult courseId sy s =
     (let localProgress = getCourseProgress courseId (userId sy) s
      in if remoteCapable sy then
           (case serverResult of
              Rejected e \<Rightarrow> (localProgress, s)
            | Resolved ok d \<Rightarrow>
                (case (if ok then d else None) of
                   None \<Rightarrow> (localProgress, s)
                 | Some serverProgress \<Rightarrow>
                     (let mergedProgress =
                            mergeProgress now courseId (userId sy) serverProgress localProgress
                      in (Some mergedProgress,
                          updateCourseProgress now courseId (asUpdates mergedProgress)
                            (userId sy) s))))
         else (localProgress, s))"

subsection \<open>Sync methods\<close>

definition noConnection :: SyncResult where
  "noConnection =
     \<lparr>success = False, error = Some ''No server connection or authentication'',
      synced_enrollments = 0, synced_progress = 0, synced_lessons = 0\<rparr>"

definition syncFailed :: "string option \<Rightarrow> SyncResult" where
  "syncFailed e =
     \<lparr>success = False, error = Some (case e of Some m \<Rightarrow> m | None \<Rightarrow> ''Sync failed''),
      synced_enrollments = 0, synced_progress = 0, synced_lessons = 0\<rparr>"

text \<open>
  \<open>processSyncQueue\<close> catches every rejection itself, so the \<open>catch\<close> block of
  \<open>syncToServer\<close> is never entered.
\<close>

definition syncToServer :: "(nat \<Rightarrow> bool) \<Rightarrow> Sync \<Rightarrow> SyncResult \<times> Sync \<times> SyncOperation list" where
  "syncToServer throws sy =
     (if \<not> isOnline sy \<or> apiClient sy = None \<or> falsy (userId sy) then (noConnection, sy, [])
      else (let (sy1, calls) = processSyncQueue throws sy
            in (\<lparr>success = True, error = None,
                 synced_enrollments = length (syncQueue sy1),
                 synced_progress = 0, synced_lessons = 0\<rparr>, sy1, calls)))"

definition syncFromServer ::
  "'a list ApiResponse \<Rightarrow> 'b list ApiResponse \<Rightarrow> Sync \<Rightarrow> SyncResult" where
  "syncFromServer enrollmentsResult progressResult sy =
     (if \<not> isOnline sy \<or> apiClient sy = None \<or> falsy (userId sy) then noConnection
      else
        (case enrollmentsResult of
           Rejected e \<Rightarrow> syncFailed e
         | Resolved ok1 d1 \<Rightarrow>
             (let n1 = (case (if ok1 then d1 else None) of Some xs \<Rightarrow> length xs | None \<Rightarrow> 0)
              in case progressResult of
                   Rejected e \<Rightarrow> syncFailed e
                 | Resolved ok2 d2 \<Rightarrow>
                     (let n2 = (case (if ok2 then d2 else None) of
                                  Some ys \<Rightarrow> length ys | None \<Rightarrow> 0)
                      in \<lparr>success = True, error = None, synced_enrollments = n1,
                          synced_progress = n2, synced_lessons = 0\<rparr>))))"

section \<open>Sequences of operations\<close>

text \<open>
  A call of a store function or of a coordinator method, with its arguments, the clock
  reading and (for a coordinator method) the coordinator's fields and the remote answer.
  \<open>perform\<close> is its effect on the store and \<open>run\<close> performs a list of calls from
  left to right.
\<close>

datatype Action =
    EnrollInFreeCourse string int "int option"
  | UnenrollFromCourse int "int option"
  | InitializeCourseProgress string int "int option"
  | UpdateCourseProgress string int CourseProgressUpdates "int option"
  | RemoveCourseProgress int "int option"
  | MarkLessonCompleted string int int "int option"
  | UpdateLessonProgress string int int LessonProgressUpdates "int option"
  | ResetAllCourseData
  | SyncIsEnrolledInCourse string "bool ApiResponse" int Sync
  | SyncEnrollInFreeCourse string "unit ApiResponse" int Sync
  | SyncMarkLessonCompleted string "unit ApiResponse" int int Sync
  | SyncGetCourseProgress string "ServerProgress ApiResponse" int Sync

fun perform :: "Action \<Rightarrow> Storage \<Rightarrow> Storage" where
  "perform (EnrollInFreeCourse now c u) s = snd (enrollInFreeCourse now c u s)"
| "perform (UnenrollFromCourse c u) s = snd (unenrollFromCourse c u s)"
| "perform (InitializeCourseProgress now c u) s = initializeCourseProgress now c u s"
| "perform (UpdateCourseProgress now c upd u) s = updateCourseProgress now c upd u s"
| "perform (RemoveCourseProgress c u) s = removeCourseProgress c u s"
| "perform (MarkLessonCompleted now l c u) s = markLessonCompleted now l c u s"
| "perform (UpdateLessonProgress now l c upd u) s = updateLessonProgress now l c upd u s"
| "perform ResetAllCourseData s = resetAllCourseData s"
| "perform (SyncIsEnrolledInCourse now r c sy) s = snd (sync_isEnrolledInCourse now r c sy s)"
| "perform (SyncEnrollInFreeCourse now r c sy) s =
     snd (snd (sync_enrollInFreeCourse now r c sy s))"
| "perform (SyncMarkLessonCompleted now r l c sy) s =
     snd (sync_markLessonCompleted now r l c sy s)"
| "perform (SyncGetCourseProgress now r c sy) s = snd (sync_getCourseProgress now r c sy s)"

fun run :: "Action list \<Rightarrow> Storage \<Rightarrow> Storage" where
  "run [] s = s"
| "run (a # as) s = run as (perform a s)"

section \<open>Properties of stores and of calls\<close>

text \<open>The (course id, user id) pairs of the stored enrollments, in order.\<close>

definition enrollmentKeys :: "Storage \<Rightarrow> (int \<times> int option) list" where
  "enrollmentKeys s = map (\<lambda>e. (e_courseId e, e_userId e)) (ENROLLMENTS s)"

text \<open>The enrollments that the store matches with a course id and an optional user id.\<close>

definition enrollmentsFor :: "int \<Rightarrow> int option \<Rightarrow> Storage \<Rightarrow> EnrollmentData list" where
  "enrollmentsFor courseId uid s =
     filter (\<lambda>enrollment. e_courseId enrollment = courseId \<and>
               (falsy uid \<or> e_userId enrollment = uid))
       (getStorageData ENROLLMENTS [] s)"


text \<open>Every course progress record has an overall progress from 0 to 100.\<close>

definition progressBounded :: "Storage \<Rightarrow> bool" where
  "progressBounded s =
     (\<forall>p\<in>set (COURSE_PROGRESS s). 0 \<le> overallProgress p \<and> overallProgress p \<le> 100)"

text \<open>An overall progress supplied from outside is absent or from 0 to 100.\<close>

definition inRange :: "int option \<Rightarrow> bool" where
  "inRange n = (case n of None \<Rightarrow> True | Some v \<Rightarrow> 0 \<le> v \<and> v \<le> 100)"

text \<open>
  A call of \<open>updateLessonProgress\<close> whose patch does not set the completed flag to false
  and does not change the keys that identify the record: it leaves \<open>lessonId\<close>,
  \<open>courseId\<close> and \<open>userId\<close> out or repeats the lesson id, the course id and
  the nonzero user id of the call.
\<close>

fun keepsLessonKey :: "Action \<Rightarrow> bool" where
  "keepsLessonKey (UpdateLessonProgress now l c upd u) =
     (v_isCompleted upd \<noteq> Some False \<and>
      (v_lessonId upd = None \<or> v_lessonId upd = Some l) \<and>
      (v_courseId upd = None \<or> v_courseId upd = Some c) \<and>
      (v_userId upd = None \<or> (v_userId upd = Some u \<and> \<not> falsy u)))"
| "keepsLessonKey a = False"



text \<open>
  Any call in which an overall progress handed in from outside (in a patch of
  \<open>updateCourseProgress\<close>, or in a successful remote answer to the coordinator's
  \<open>getCourseProgress\<close>) is from 0 to 100.
\<close>

fun suppliesBoundedProgress :: "Action \<Rightarrow> bool" where
  "suppliesBoundedProgress (UpdateCourseProgress now c upd u) = inRange (u_overallProgress upd)"
| "suppliesBoundedProgress (SyncGetCourseProgress now (Resolved True (Some sp)) c sy) =
     inRange (s_overallProgress sp)"
| "suppliesBoundedProgress a = True"

section \<open>Example states\<close>

text \<open>Concrete stores, coordinators, patches and remote behaviours on which the theorems are evaluated.\<close>

definition onlineSync :: Sync where
  "onlineSync =
     \<lparr>apiClient = Some TutorApiClient, userId = Some 1, isOnline = True, syncQueue = []\<rparr>"

definition offlineSync :: Sync where
  "offlineSync =
     \<lparr>apiClient = Some TutorApiClient, userId = Some 1, isOnline = False, syncQueue = []\<rparr>"

definition queuedSync :: Sync where
  "queuedSync =
     \<lparr>apiClient = Some TutorApiClient, userId = Some 1, isOnline = True,
      syncQueue = [EnrollInCourseOp 7]\<rparr>"

definition allResolve :: "nat \<Rightarrow> bool" where
  "allResolve i = False"

definition allReject :: "nat \<Rightarrow> bool" where
  "allReject i = True"

definition noServerProgress :: ServerProgress where
  "noServerProgress =
     \<lparr>s_completedLessons = None, s_completedQuizzes = None, s_completedAssignments = None,
      s_overallProgress = None, s_lastAccessed = None, s_startDate = None,
      s_completionDate = None\<rparr>"


definition twoUsersStore :: Storage where
  "twoUsersStore =
     run [EnrollInFreeCourse ''t1'' 7 (Some 1), EnrollInFreeCourse ''t2'' 7 (Some 2)] emptyStorage"

definition enrolledStore :: Storage where
  "enrolledStore = run [EnrollInFreeCourse ''t0'' 1 None] emptyStorage"

definition lessonDoneStore :: Storage where
  "lessonDoneStore =
     run [EnrollInFreeCourse ''t0'' 10 (Some 1), MarkLessonCompleted ''t1'' 3 10 (Some 1)]
       emptyStorage"


definition renumbering :: LessonProgressUpdates where
  "renumbering = noLessonUpdates\<lparr>v_lessonId := Some 99\<rparr>"

section \<open>Auxiliary facts\<close>

subsection \<open>\<open>findIndex\<close> and \<open>find\<close>\<close>

lemma findIndex_None: "findIndex P xs = None \<longleftrightarrow> (\<forall>x\<in>set xs. \<not> P x)"
  by (induction xs) auto

lemma findIndex_Some:
  "findIndex P xs = Some i \<Longrightarrow> i < length xs \<and> P (xs ! i) \<and> (\<forall>j<i. \<not> P (xs ! j))"
proof (induction xs arbitrary: i)
  case Nil
  then show ?case by simp
next
  case (Cons x xs)
  show ?case
  proof (cases "P x")
    case True
    with Cons.prems show ?thesis by simp
  next
    case False
    with Cons.prems obtain k where k: "findIndex P xs = Some k" "i = Suc k" by auto
    from Cons.IH[OF k(1)] False k(2) show ?thesis
      by (auto simp: nth_Cons split: nat.splits)
  qed
qed

lemma find_findIndex: "find P xs = map_option (\<lambda>i. xs ! i) (findIndex P xs)"
  by (induction xs) (auto simp: option.map_comp comp_def)

lemma findIndex_map_eq: "map P xs = map P ys \<Longrightarrow> findIndex P xs = findIndex P ys"
proof (induction xs arbitrary: ys)
  case Nil
  then show ?case by simp
next
  case (Cons x xs)
  then obtain y ys' where "ys = y # ys'" by (cases ys) auto
  with Cons show ?case by auto
qed

lemma findIndex_append:
  "findIndex P (xs @ ys) =
     (case findIndex P xs of Some i \<Rightarrow> Some i
      | None \<Rightarrow> map_option (\<lambda>k. length xs + k) (findIndex P ys))"
  by (induction xs) (cases "findIndex P ys"; auto split: option.splits)+

lemma findIndex_update_same:
  "findIndex P xs = Some i \<Longrightarrow> P y \<Longrightarrow> findIndex P (xs[i := y]) = Some i"
proof -
  assume a: "findIndex P xs = Some i" and y: "P y"
  from findIndex_Some[OF a] y have "map P (xs[i := y]) = map P xs"
    by (simp add: map_update list_update_same_conv)
  then show ?thesis using a findIndex_map_eq by metis
qed

section \<open>Matching on the optional user id\<close>






section \<open>The retry queue\<close>

lemma nth_filter_upt_Cons:
  "map (\<lambda>k. (x # q) ! k) (filter P [0..<Suc (length q)]) =
     (if P 0 then [x] else []) @ map (\<lambda>k. q ! k) (filter (\<lambda>k. P (Suc k)) [0..<length q])"
proof -
  have "[0..<Suc (length q)] = 0 # map Suc [0..<length q]"
    by (simp add: upt_conv_Cons map_Suc_upt del: upt_Suc)
  then show ?thesis
    by (simp add: filter_map comp_def del: upt_Suc)
qed

lemma nth_filter_upt_snoc:
  "map (\<lambda>k. (q @ [y]) ! k) (filter P [0..<Suc (length q)]) =
     map (\<lambda>k. q ! k) (filter P [0..<length q]) @ (if P (length q) then [y] else [])"
proof -
  have "map (\<lambda>k. (q @ [y]) ! k) (filter P [0..<length q]) =
        map (\<lambda>k. q ! k) (filter P [0..<length q])"
    by (rule map_cong) (auto simp: nth_append)
  then show ?thesis by simp
qed

lemma replay_eq:
  "replay throws i q sy calls =
     (sy\<lparr>syncQueue := syncQueue sy @ map (\<lambda>k. q ! k) (filter (\<lambda>k. throws (i + k)) [0..<length q])\<rparr>,
      calls @ q)"
proof (induction q arbitrary: i sy calls)
  case Nil
  then show ?case by simp
next
  case (Cons x q)
  show ?case
    using nth_filter_upt_Cons[of x q "\<lambda>k. throws (i + k)"]
    by (simp add: Cons.IH del: upt_Suc)
qed

lemma processSyncQueue_online:
  "isOnline sy \<Longrightarrow> apiClient sy \<noteq> None \<Longrightarrow>
   processSyncQueue throws sy =
     (sy\<lparr>syncQueue := map (\<lambda>k. syncQueue sy ! k) (filter throws [0..<length (syncQueue sy)])\<rparr>,
      syncQueue sy)"
  unfolding processSyncQueue_def Let_def replay_eq by auto

lemma processSyncQueue_offline:
  "\<not> (isOnline sy \<and> apiClient sy \<noteq> None) \<Longrightarrow> processSyncQueue throws sy = (sy, [])"
  unfolding processSyncQueue_def by auto

lemma count_list_failing:
  "(\<forall>k<length q. q ! k = x \<longrightarrow> throws k) \<Longrightarrow>
   count_list (map (\<lambda>k. q ! k) (filter throws [0..<length q])) x = count_list q x"
proof (induction q rule: rev_induct)
  case Nil
  then show ?case by simp
next
  case (snoc y q)
  have "\<forall>k<length q. q ! k = x \<longrightarrow> throws k"
    using snoc.prems by (auto simp: nth_append)
  with snoc.IH have ih: "count_list (map (\<lambda>k. q ! k) (filter throws [0..<length q])) x = count_list q x"
    by simp
  from snoc.prems have last: "y = x \<longrightarrow> throws (length q)"
    by (auto simp: nth_append)
  have "count_list (map (\<lambda>k. (q @ [y]) ! k) (filter throws [0..<Suc (length q)])) x =
        count_list (q @ [y]) x"
    unfolding nth_filter_upt_snoc using ih last by simp
  then show ?case by simp
qed

text \<open>
  Claim C3. A drain that runs (the coordinator is online and has a client) copies the
  queue, empties it and awaits every copied entry in order, whatever the earlier ones did:
  the log of awaited operations is the whole snapshot. The entries whose replay rejects
  are appended to the live queue again, in order, and the others are dropped. A drain that
  does not run (offline, or no client) leaves the queue as it is. So in every case an
  entry whose replay rejects is in the queue after the drain, and an operation all of
  whose queued copies reject is queued as many times after the drain as before.
\<close>

theorem drain_requeues_failures:
  "(isOnline sy \<and> apiClient sy \<noteq> None \<longrightarrow>
      processSyncQueue throws sy =
        (sy\<lparr>syncQueue := map (\<lambda>k. syncQueue sy ! k) (filter throws [0..<length (syncQueue sy)])\<rparr>,
         syncQueue sy)) \<and>
   (\<not> (isOnline sy \<and> apiClient sy \<noteq> None) \<longrightarrow> processSyncQueue throws sy = (sy, [])) \<and>
   (\<forall>k<length (syncQueue sy).
      throws k \<longrightarrow> syncQueue sy ! k \<in> set (syncQueue (fst (processSyncQueue throws sy)))) \<and>
   (\<forall>x. (\<forall>k<length (syncQueue sy). syncQueue sy ! k = x \<longrightarrow> throws k) \<longrightarrow>
      count_list (syncQueue (fst (processSyncQueue throws sy))) x =
        count_list (syncQueue sy) x)"
proof (cases "isOnline sy \<and> apiClient sy \<noteq> None")
  case True
  then have p: "processSyncQueue throws sy =
        (sy\<lparr>syncQueue := map (\<lambda>k. syncQueue sy ! k) (filter throws [0..<length (syncQueue sy)])\<rparr>,
         syncQueue sy)"
    by (simp add: processSyncQueue_online)
  have "\<forall>k<length (syncQueue sy).
      throws k \<longrightarrow> syncQueue sy ! k \<in> set (syncQueue (fst (processSyncQueue throws sy)))"
    unfolding p by auto
  moreover have "\<forall>x. (\<forall>k<length (syncQueue sy). syncQueue sy ! k = x \<longrightarrow> throws k) \<longrightarrow>
      count_list (syncQueue (fst (processSyncQueue throws sy))) x =
        count_list (syncQueue sy) x"
    unfolding p using count_list_failing[of "syncQueue sy" _ throws] by simp
  ultimately show ?thesis using True p by blast
next
  case False
  then have p: "processSyncQueue throws sy = (sy, [])"
    by (simp add: processSyncQueue_offline)
  show ?thesis using False unfolding p by auto
qed

theorem drain_requeues_failures_witness:
  "isOnline queuedSync \<and> apiClient queuedSync \<noteq> None \<and> allReject 0 \<and>
   syncQueue (fst (processSyncQueue allReject queuedSync)) = [EnrollInCourseOp 7] \<and>
   snd (processSyncQueue allReject queuedSync) = [EnrollInCourseOp 7] \<and>
   \<not> (isOnline offlineSync \<and> apiClient offlineSync \<noteq> None) \<and>
   processSyncQueue allReject offlineSync = (offlineSync, [])"
  using drain_requeues_failures [of queuedSync allReject]
    drain_requeues_failures [of offlineSync allReject]
  by (simp add: queuedSync_def offlineSync_def allReject_def)

section \<open>Enrolling while offline\<close>

lemma enrollInFreeCourse_succeeds: "fst (enrollInFreeCourse now c u s) = True"
  by (simp add: enrollInFreeCourse_def Let_def)

lemma sync_enrollInFreeCourse_incapable:
  "\<not> remoteCapable sy \<Longrightarrow>
   sync_enrollInFreeCourse now r c sy s =
     (True, sy\<lparr>syncQueue := syncQueue sy @ [EnrollInCourseOp c]\<rparr>,
      snd (enrollInFreeCourse now c (userId sy) s))"
  using enrollInFreeCourse_succeeds[of now c "userId sy" s]
  by (simp add: sync_enrollInFreeCourse_def addToSyncQueue_def split_beta Let_def)

text \<open>
  Claim C2. When the coordinator is offline, or has no API client, or has no user id, then
  \<open>enrollInFreeCourse\<close> of the coordinator returns true (the local enrollment always
  succeeds) and appends exactly one retry entry to the sync queue, changing nothing else
  of the coordinator. When the coordinator has a client and then comes online, a drain in
  which that entry's remote call resolves awaits the old entries and then the new one,
  each once, and leaves in the queue only the old entries that rejected: the new entry
  has been executed once and is gone.
\<close>

theorem offline_enroll_queued_once:
  assumes "\<not> remoteCapable sy"
  shows "fst (sync_enrollInFreeCourse now r c sy s) = True \<and>
         fst (snd (sync_enrollInFreeCourse now r c sy s)) =
           sy\<lparr>syncQueue := syncQueue sy @ [EnrollInCourseOp c]\<rparr> \<and>
         (apiClient sy \<noteq> None \<and> \<not> throws (length (syncQueue sy)) \<longrightarrow>
            processSyncQueue throws
              ((fst (snd (sync_enrollInFreeCourse now r c sy s)))\<lparr>isOnline := True\<rparr>) =
              (sy\<lparr>isOnline := True,
                  syncQueue := map (\<lambda>k. syncQueue sy ! k)
                                 (filter throws [0..<length (syncQueue sy)])\<rparr>,
               syncQueue sy @ [EnrollInCourseOp c]))"
proof -
  let ?sy1 = "sy\<lparr>syncQueue := syncQueue sy @ [EnrollInCourseOp c]\<rparr>"
  have e: "sync_enrollInFreeCourse now r c sy s =
             (True, ?sy1, snd (enrollInFreeCourse now c (userId sy) s))"
    using assms by (rule sync_enrollInFreeCourse_incapable)
  have d: "processSyncQueue throws (?sy1\<lparr>isOnline := True\<rparr>) =
              (sy\<lparr>isOnline := True,
                  syncQueue := map (\<lambda>k. syncQueue sy ! k)
                                 (filter throws [0..<length (syncQueue sy)])\<rparr>,
               syncQueue sy @ [EnrollInCourseOp c])"
    if "apiClient sy \<noteq> None" "\<not> throws (length (syncQueue sy))"
  proof -
    have "map (\<lambda>k. (syncQueue sy @ [EnrollInCourseOp c]) ! k)
            (filter throws [0..<Suc (length (syncQueue sy))]) =
          map (\<lambda>k. syncQueue sy ! k) (filter throws [0..<length (syncQueue sy)])"
      unfolding nth_filter_upt_snoc using that(2) by simp
    then show ?thesis
      using that(1) by (simp add: processSyncQueue_online)
  qed
  show ?thesis unfolding e using d by simp
qed

theorem offline_enroll_queued_once_witness:
  "\<not> remoteCapable offlineSync \<and>
   fst (sync_enrollInFreeCourse ''t'' (Rejected None) 42 offlineSync emptyStorage) = True \<and>
   syncQueue (fst (snd (sync_enrollInFreeCourse ''t'' (Rejected None) 42 offlineSync emptyStorage)))
     = [EnrollInCourseOp 42] \<and>
   processSyncQueue allResolve
     ((fst (snd (sync_enrollInFreeCourse ''t'' (Rejected None) 42 offlineSync emptyStorage)))
        \<lparr>isOnline := True\<rparr>) =
     (offlineSync\<lparr>isOnline := True\<rparr>, [EnrollInCourseOp 42])"
  using offline_enroll_queued_once [of offlineSync "''t''" "Rejected None" 42 emptyStorage allResolve]
  by (simp add: remoteCapable_def offlineSync_def allResolve_def processSyncQueue_def)

section \<open>Explicit synchronisation\<close>

lemma syncToServer_fail_closed:
  "\<not> isOnline sy \<or> apiClient sy = None \<or> falsy (userId sy) \<Longrightarrow>
   syncToServer throws sy = (noConnection, sy, []) \<and> syncFromServer r1 r2 sy = noConnection"
  by (auto simp: syncToServer_def syncFromServer_def)

lemma syncToServer_count:
  "isOnline sy \<Longrightarrow> apiClient sy \<noteq> None \<Longrightarrow> \<not> falsy (userId sy) \<Longrightarrow>
   synced_enrollments (fst (syncToServer throws sy)) =
     length (filter throws [0..<length (syncQueue sy)])"
  by (auto simp: syncToServer_def processSyncQueue_online)

text \<open>
  Claim C7. \<open>syncToServer\<close> is to report how many queue entries it processed. It
  reports the length of the queue after the drain instead, which is the number of
  entries that failed: with one queued entry whose remote call resolves, one entry is
  processed (the log has it) and the reported count is 0.
\<close>

theorem syncToServer_reports_leftover:
  "syncToServer allResolve queuedSync =
     (\<lparr>success = True, error = None, synced_enrollments = 0, synced_progress = 0,
       synced_lessons = 0\<rparr>,
      queuedSync\<lparr>syncQueue := []\<rparr>, [EnrollInCourseOp 7])"
  by (simp add: syncToServer_def processSyncQueue_def queuedSync_def allResolve_def falsy_def)

theorem syncToServer_reports_leftover_witness:
  "isOnline queuedSync \<and> apiClient queuedSync \<noteq> None \<and> \<not> falsy (userId queuedSync) \<and>
   length (syncQueue queuedSync) = 1 \<and>
   snd (snd (syncToServer allResolve queuedSync)) = [EnrollInCourseOp 7] \<and>
   synced_enrollments (fst (syncToServer allResolve queuedSync)) = 0"
  using syncToServer_reports_leftover
  by (simp add: queuedSync_def falsy_def)

section \<open>What each store function leaves alone\<close>

lemmas storage_defs = getStorageData_def setStorageData_def Let_def

lemma initializeCourseProgress_frame:
  "ENROLLMENTS (initializeCourseProgress now c u s) = ENROLLMENTS s"
  "LESSON_PROGRESS (initializeCourseProgress now c u s) = LESSON_PROGRESS s"
  "window_defined (initializeCourseProgress now c u s) = window_defined s"
  by (simp_all add: initializeCourseProgress_def storage_defs)

lemma removeCourseProgress_frame:
  "ENROLLMENTS (removeCourseProgress c u s) = ENROLLMENTS s"
  "LESSON_PROGRESS (removeCourseProgress c u s) = LESSON_PROGRESS s"
  "window_defined (removeCourseProgress c u s) = window_defined s"
  by (simp_all add: removeCourseProgress_def storage_defs)

lemma updateCourseProgress_frame:
  "ENROLLMENTS (updateCourseProgress now c upd u s) = ENROLLMENTS s"
  "LESSON_PROGRESS (updateCourseProgress now c upd u s) = LESSON_PROGRESS s"
  "window_defined (updateCourseProgress now c upd u s) = window_defined s"
  by (simp_all add: updateCourseProgress_def storage_defs split: option.splits)

lemma updateLessonProgress_frame:
  "ENROLLMENTS (updateLessonProgress now l c upd u s) = ENROLLMENTS s"
  "COURSE_PROGRESS (updateLessonProgress now l c upd u s) = COURSE_PROGRESS s"
  "window_defined (updateLessonProgress now l c upd u s) = window_defined s"
  by (simp_all add: updateLessonProgress_def storage_defs)

lemma markLessonCompleted_frame:
  "ENROLLMENTS (markLessonCompleted now l c u s) = ENROLLMENTS s"
  "window_defined (markLessonCompleted now l c u s) = window_defined s"
  by (simp_all add: markLessonCompleted_def updateCourseProgress_frame storage_defs
      split: option.splits)

lemma enrollInFreeCourse_frame:
  "LESSON_PROGRESS (snd (enrollInFreeCourse now c u s)) = LESSON_PROGRESS s"
  "window_defined (snd (enrollInFreeCourse now c u s)) = window_defined s"
  by (simp_all add: enrollInFreeCourse_def initializeCourseProgress_frame storage_defs)

lemma enrollInFreeCourse_enrollments:
  "ENROLLMENTS (snd (enrollInFreeCourse now c u s)) =
     (if window_defined s \<and> \<not> isEnrolledInCourse c u s
      then ENROLLMENTS s @
             [\<lparr>e_courseId = c, e_userId = u, enrollmentMethod = Free, timestamp = now\<rparr>]
      else ENROLLMENTS s)"
  by (simp add: enrollInFreeCourse_def initializeCourseProgress_frame storage_defs)


lemma unenrollFromCourse_enrollments:
  "ENROLLMENTS (snd (unenrollFromCourse c u s)) =
     (if window_defined s
      then filter (\<lambda>e. \<not> (e_courseId e = c \<and> (falsy u \<or> e_userId e = u))) (ENROLLMENTS s)
      else ENROLLMENTS s)"
  by (simp add: unenrollFromCourse_def removeCourseProgress_frame storage_defs)

lemma no_window_initialize: "\<not> window_defined s \<Longrightarrow> initializeCourseProgress now c u s = s"
  by (simp add: initializeCourseProgress_def storage_defs)

lemma enrolled_after_enroll:
  "window_defined s \<Longrightarrow> isEnrolledInCourse c u (snd (enrollInFreeCourse now c u s))"
proof (cases "isEnrolledInCourse c u s")
  case True
  then show ?thesis by (simp add: enrollInFreeCourse_def)
next
  case False
  assume w: "window_defined s"
  show ?thesis
    using w False
    by (simp add: isEnrolledInCourse_def[of c u "snd (enrollInFreeCourse now c u s)"]
        enrollInFreeCourse_enrollments enrollInFreeCourse_frame getStorageData_def)
qed

lemma enroll_again_unchanged:
  "snd (enrollInFreeCourse n2 c u (snd (enrollInFreeCourse n1 c u s))) =
     snd (enrollInFreeCourse n1 c u s)"
proof (cases "window_defined s")
  case True
  from enrolled_after_enroll[OF True, of c u n1]
  show ?thesis by (simp add: enrollInFreeCourse_def[of n2])
next
  case False
  then have "isEnrolledInCourse c u s = False"
    by (simp add: isEnrolledInCourse_def storage_defs)
  with False have "snd (enrollInFreeCourse n1 c u s) = s" for n1
    by (simp add: enrollInFreeCourse_def storage_defs no_window_initialize)
  then show ?thesis by simp
qed

section \<open>Idempotent enrollment\<close>

lemma sync_enrollInFreeCourse_storage:
  "snd (snd (sync_enrollInFreeCourse now r c sy s)) = snd (enrollInFreeCourse now c (userId sy) s)"
  using enrollInFreeCourse_succeeds[of now c "userId sy" s]
  by (simp add: sync_enrollInFreeCourse_def split_beta Let_def split: ApiResponse.splits)

lemma sync_markLessonCompleted_storage:
  "snd (sync_markLessonCompleted now r l c sy s) = markLessonCompleted now l c (userId sy) s"
  by (simp add: sync_markLessonCompleted_def Let_def split: ApiResponse.splits)

lemma sync_isEnrolledInCourse_storage:
  "snd (sync_isEnrolledInCourse now r c sy s) = s \<or>
   snd (sync_isEnrolledInCourse now r c sy s) = snd (enrollInFreeCourse now c (userId sy) s)"
  by (simp add: sync_isEnrolledInCourse_def Let_def split: ApiResponse.splits)

lemma sync_getCourseProgress_storage:
  "snd (sync_getCourseProgress now r c sy s) = s \<or>
   (\<exists>sp. r = Resolved True (Some sp) \<and>
      snd (sync_getCourseProgress now r c sy s) =
        updateCourseProgress now c
          (asUpdates (mergeProgress now c (userId sy) sp (getCourseProgress c (userId sy) s)))
          (userId sy) s)"
  by (simp add: sync_getCourseProgress_def Let_def split: ApiResponse.splits option.splits)

lemma count_list_distinct: "distinct xs \<Longrightarrow> x \<in> set xs \<Longrightarrow> count_list xs x = 1"
  by (induction xs) auto

lemma isEnrolledInCourse_iff:
  "isEnrolledInCourse c u s \<longleftrightarrow>
     window_defined s \<and> (\<exists>e\<in>set (ENROLLMENTS s). e_courseId e = c \<and> (falsy u \<or> e_userId e = u))"
  by (auto simp: isEnrolledInCourse_def storage_defs list_ex_iff)

lemma keys_enroll:
  assumes "distinct (enrollmentKeys s)"
  shows "distinct (enrollmentKeys (snd (enrollInFreeCourse now c u s)))"
proof (cases "window_defined s \<and> \<not> isEnrolledInCourse c u s")
  case True
  then have "(c, u) \<notin> set (enrollmentKeys s)"
    by (auto simp: isEnrolledInCourse_iff enrollmentKeys_def)
  with assms True show ?thesis
    by (simp add: enrollmentKeys_def enrollInFreeCourse_enrollments)
next
  case False
  with assms show ?thesis
    by (auto simp: enrollmentKeys_def enrollInFreeCourse_enrollments)
qed

lemma keys_unenroll:
  "distinct (enrollmentKeys s) \<Longrightarrow> distinct (enrollmentKeys (snd (unenrollFromCourse c u s)))"
  by (simp add: enrollmentKeys_def unenrollFromCourse_enrollments distinct_map_filter)

lemma keys_perform:
  assumes "distinct (enrollmentKeys s)"
  shows "distinct (enrollmentKeys (perform a s))"
proof (cases a)
  case (EnrollInFreeCourse now c u)
  with assms show ?thesis by (simp add: keys_enroll)
next
  case (UnenrollFromCourse c u)
  with assms show ?thesis by (simp add: keys_unenroll)
next
  case ResetAllCourseData
  with assms show ?thesis by (simp add: resetAllCourseData_def enrollmentKeys_def)
next
  case (SyncIsEnrolledInCourse now r c sy)
  with assms sync_isEnrolledInCourse_storage[of now r c sy s] show ?thesis
    by (auto simp: keys_enroll)
next
  case (SyncEnrollInFreeCourse now r c sy)
  with assms show ?thesis by (simp add: sync_enrollInFreeCourse_storage keys_enroll)
next
  case (SyncMarkLessonCompleted now r l c sy)
  with assms show ?thesis
    by (simp add: sync_markLessonCompleted_storage enrollmentKeys_def markLessonCompleted_frame)
next
  case (SyncGetCourseProgress now r c sy)
  with assms sync_getCourseProgress_storage[of now r c sy s] show ?thesis
    by (auto simp: enrollmentKeys_def updateCourseProgress_frame)
qed (use assms in \<open>simp_all add: enrollmentKeys_def initializeCourseProgress_frame
      updateCourseProgress_frame removeCourseProgress_frame markLessonCompleted_frame
      updateLessonProgress_frame\<close>)

lemma keys_run: "distinct (enrollmentKeys s) \<Longrightarrow> distinct (enrollmentKeys (run as s))"
  by (induction as arbitrary: s) (simp_all add: keys_perform)

lemma enrollmentsFor_after_enroll:
  assumes "window_defined s" "\<not> isEnrolledInCourse c u s"
  shows "enrollmentsFor c u (snd (enrollInFreeCourse now c u s)) =
           [\<lparr>e_courseId = c, e_userId = u, enrollmentMethod = Free, timestamp = now\<rparr>]"
proof -
  from assms have "filter (\<lambda>e. e_courseId e = c \<and> (falsy u \<or> e_userId e = u)) (ENROLLMENTS s) = []"
    by (auto simp: isEnrolledInCourse_iff filter_empty_conv)
  with assms show ?thesis
    by (simp add: enrollmentsFor_def enrollInFreeCourse_enrollments enrollInFreeCourse_frame
        getStorageData_def)
qed

lemma count_key_after_enroll:
  assumes "window_defined s" "\<not> falsy u" "distinct (enrollmentKeys s)"
  shows "count_list (enrollmentKeys (snd (enrollInFreeCourse now c u s))) (c, u) = 1"
proof (cases "isEnrolledInCourse c u s")
  case True
  with assms(2) have "(c, u) \<in> set (enrollmentKeys s)"
    by (force simp: isEnrolledInCourse_iff enrollmentKeys_def)
  with assms(3) have "count_list (enrollmentKeys s) (c, u) = 1"
    by (simp add: count_list_distinct)
  with True show ?thesis
    by (simp add: enrollmentKeys_def enrollInFreeCourse_enrollments)
next
  case False
  with assms have "(c, u) \<notin> set (enrollmentKeys s)"
    by (auto simp: isEnrolledInCourse_iff enrollmentKeys_def)
  then have "count_list (enrollmentKeys s) (c, u) = 0"
    by (simp add: count_list_0_iff)
  with False assms(1) show ?thesis
    by (simp add: enrollmentKeys_def enrollInFreeCourse_enrollments)
qed

text \<open>
  Claim C5, amended. Calling \<open>enrollInFreeCourse\<close> of the store twice in succession
  returns true both times, and the second call leaves the store as the first one left it.
  With the persistence surface available: when no enrollment matched (course id, user id)
  before, exactly one enrollment matches the pair afterwards and it stores that pair; and
  for a nonzero user id, when the store held at most one enrollment per pair before,
  exactly one enrollment of that pair exists afterwards. In every store reached from the
  empty one by calls of the store and of the coordinator, at most one enrollment per
  (course id, user id) pair exists.
\<close>

theorem enroll_twice:
  "fst (enrollInFreeCourse n1 c u s) \<and>
   fst (enrollInFreeCourse n2 c u (snd (enrollInFreeCourse n1 c u s))) \<and>
   snd (enrollInFreeCourse n2 c u (snd (enrollInFreeCourse n1 c u s))) =
     snd (enrollInFreeCourse n1 c u s) \<and>
   (window_defined s \<and> \<not> isEnrolledInCourse c u s \<longrightarrow>
      enrollmentsFor c u (snd (enrollInFreeCourse n1 c u s)) =
        [\<lparr>e_courseId = c, e_userId = u, enrollmentMethod = Free, timestamp = n1\<rparr>]) \<and>
   (window_defined s \<and> \<not> falsy u \<and> distinct (enrollmentKeys s) \<longrightarrow>
      count_list (enrollmentKeys (snd (enrollInFreeCourse n1 c u s))) (c, u) = 1) \<and>
   distinct (enrollmentKeys (run as emptyStorage))"
proof -
  have "distinct (enrollmentKeys emptyStorage)"
    by (simp add: enrollmentKeys_def emptyStorage_def)
  then have "distinct (enrollmentKeys (run as emptyStorage))"
    by (rule keys_run)
  then show ?thesis
    by (simp add: enrollInFreeCourse_succeeds enroll_again_unchanged
        enrollmentsFor_after_enroll count_key_after_enroll)
qed

theorem enroll_twice_witness:
  "window_defined emptyStorage \<and> \<not> isEnrolledInCourse 42 (Some 5) emptyStorage \<and>
   \<not> falsy (Some 5) \<and> distinct (enrollmentKeys emptyStorage) \<and>
   enrollmentsFor 42 (Some 5) (snd (enrollInFreeCourse ''t1'' 42 (Some 5) emptyStorage)) =
     [\<lparr>e_courseId = 42, e_userId = Some 5, enrollmentMethod = Free, timestamp = ''t1''\<rparr>] \<and>
   count_list (enrollmentKeys (snd (enrollInFreeCourse ''t1'' 42 (Some 5) emptyStorage)))
     (42, Some 5) = 1"
  using enroll_twice [of "''t1''" 42 "Some 5" emptyStorage "''t2''" "[]"]
  by (simp add: emptyStorage_def isEnrolledInCourse_def enrollmentKeys_def falsy_def
      storage_defs)

text \<open>
  The claim as it stands fails with a falsy user id: it matches the enrollments of any
  user, so after two users have enrolled in course 7, enrolling twice without a user id
  returns true, adds nothing, and leaves two enrollments that match and none that stores
  the pair (7, no user).
\<close>

theorem enroll_twice_counterexample:
  "length (enrollmentsFor 7 None
     (snd (enrollInFreeCourse ''t4'' 7 None
        (snd (enrollInFreeCourse ''t3'' 7 None twoUsersStore))))) = 2 \<and>
   count_list (enrollmentKeys
     (snd (enrollInFreeCourse ''t4'' 7 None
        (snd (enrollInFreeCourse ''t3'' 7 None twoUsersStore))))) (7, None) = 0"
  by (simp add: twoUsersStore_def emptyStorage_def enrollInFreeCourse_def
      isEnrolledInCourse_def initializeCourseProgress_def enrollmentsFor_def enrollmentKeys_def
      storage_defs falsy_def)

section \<open>Completing a lesson\<close>

lemma find_update_first:
  "findIndex P xs = Some i \<Longrightarrow> P y \<Longrightarrow> find P (xs[i := y]) = Some y"
  using findIndex_update_same[of P xs i y] findIndex_Some[of P xs i]
  by (simp add: find_findIndex)

lemma find_append_new:
  "findIndex P xs = None \<Longrightarrow> P z \<Longrightarrow> find P (xs @ [z]) = Some z"
  by (simp add: find_findIndex findIndex_append)

lemma find_None_findIndex: "find P xs = None \<longleftrightarrow> findIndex P xs = None"
  by (simp add: find_findIndex)

lemma find_Some_findIndex:
  "find P xs = Some x \<Longrightarrow> \<exists>i. findIndex P xs = Some i \<and> xs ! i = x"
  by (auto simp: find_findIndex)

lemma getCourseProgress_only_courses:
  "window_defined s' = window_defined s \<Longrightarrow> COURSE_PROGRESS s' = COURSE_PROGRESS s \<Longrightarrow>
   getCourseProgress c u s' = getCourseProgress c u s"
  by (simp add: getCourseProgress_def storage_defs)

lemma getLessonProgress_only_lessons:
  "window_defined s' = window_defined s \<Longrightarrow> LESSON_PROGRESS s' = LESSON_PROGRESS s \<Longrightarrow>
   getLessonProgress l c u s' = getLessonProgress l c u s"
  by (simp add: getLessonProgress_def storage_defs)

lemma updateCourseProgress_absent:
  "getCourseProgress c u s = None \<Longrightarrow> updateCourseProgress now c upd u s = s"
  by (simp add: getCourseProgress_def updateCourseProgress_def Let_def find_None_findIndex)

lemma getCourseProgress_updated:
  assumes w: "window_defined s"
    and g: "getCourseProgress c u s = Some p"
    and m: "cp_courseId ((spreadCourseProgress p upd)\<lparr>lastAccessed := now\<rparr>) = c \<and>
            (falsy u \<or> cp_userId ((spreadCourseProgress p upd)\<lparr>lastAccessed := now\<rparr>) = u)"
  shows "getCourseProgress c u (updateCourseProgress now c upd u s) =
           Some ((spreadCourseProgress p upd)\<lparr>lastAccessed := now\<rparr>)"
proof -
  let ?M = "\<lambda>p. cp_courseId p = c \<and> (falsy u \<or> cp_userId p = u)"
  from w g have "find ?M (COURSE_PROGRESS s) = Some p"
    by (simp add: getCourseProgress_def storage_defs)
  then obtain i where i: "findIndex ?M (COURSE_PROGRESS s) = Some i" "COURSE_PROGRESS s ! i = p"
    using find_Some_findIndex by fastforce
  have "find ?M ((COURSE_PROGRESS s)[i := (spreadCourseProgress p upd)\<lparr>lastAccessed := now\<rparr>]) =
          Some ((spreadCourseProgress p upd)\<lparr>lastAccessed := now\<rparr>)"
    using i(1) m by (rule find_update_first)
  with w i show ?thesis
    by (simp add: getCourseProgress_def updateCourseProgress_def storage_defs)
qed

lemma spread_two_keys:
  "spreadCourseProgress p (noCourseUpdates\<lparr>u_completedLessons := Some xs, u_overallProgress := Some n\<rparr>) =
     p\<lparr>completedLessons := xs, overallProgress := n\<rparr>"
  by (simp add: spreadCourseProgress_def noCourseUpdates_def spreadKey_def)

lemma getCourseProgress_matches:
  "getCourseProgress c u s = Some p \<Longrightarrow> cp_courseId p = c \<and> (falsy u \<or> cp_userId p = u)"
  by (auto simp: getCourseProgress_def Let_def find_Some_iff)

lemma markLessonCompleted_courseProgress:
  assumes w: "window_defined s"
  shows "getCourseProgress c u (markLessonCompleted now l c u s) =
           map_option
             (\<lambda>p. p\<lparr>completedLessons :=
                       (if l \<in> set (completedLessons p) then completedLessons p
                        else completedLessons p @ [l]),
                     overallProgress := calculateOverallProgress c u s,
                     lastAccessed := now\<rparr>)
             (getCourseProgress c u s)"
proof -
  define xs where "xs = LESSON_PROGRESS s"
  define M where "M = (\<lambda>p::LessonProgress. lp_lessonId p = l \<and> lp_courseId p = c \<and> (falsy u \<or> lp_userId p = u))"
  define ys where "ys =
            (case findIndex M xs of
               Some i \<Rightarrow>
                 xs[i := (xs ! i)\<lparr>isCompleted := True, progressPercentage := 100,
                      completedAt := Some now, accessedAt := now\<rparr>]
             | None \<Rightarrow>
                 xs @ [\<lparr>lp_lessonId = l, lp_courseId = c, lp_userId = u,
                     isCompleted = True, progressPercentage = 100, timeSpent = 0,
                     lastPosition = None, accessedAt = now, completedAt = Some now\<rparr>])"
  define s1 where "s1 = s\<lparr>LESSON_PROGRESS := ys\<rparr>"
  have g1: "getCourseProgress c u s1 = getCourseProgress c u s"
    by (rule getCourseProgress_only_courses) (simp_all add: s1_def)
  have c1: "calculateOverallProgress c u s1 = calculateOverallProgress c u s"
    by (simp add: calculateOverallProgress_def g1)
  have w1: "window_defined s1" using w by (simp add: s1_def)
  have m: "markLessonCompleted now l c u s =
        (case getCourseProgress c u s1 of
           None \<Rightarrow> s1
         | Some courseProgress \<Rightarrow>
             updateCourseProgress now c
                   (noCourseUpdates
                      \<lparr>u_completedLessons := Some (if l \<in> set (completedLessons courseProgress)
                     then completedLessons courseProgress
                     else completedLessons courseProgress @ [l]),
                       u_overallProgress := Some (calculateOverallProgress c u s1)\<rparr>)
                   u s1)"
    using w unfolding markLessonCompleted_def storage_defs s1_def ys_def xs_def M_def
    by simp
  show ?thesis
  proof (cases "getCourseProgress c u s")
    case None
    with m g1 show ?thesis by simp
  next
    case (Some p)
    from getCourseProgress_matches[OF Some]
    have k: "cp_courseId p = c \<and> (falsy u \<or> cp_userId p = u)" .
    show ?thesis
      unfolding m g1 Some c1
      using getCourseProgress_updated[OF w1, where c=c and u=u and p=p and now=now] g1 Some k
      by (simp add: spread_two_keys)
  qed
qed

lemma isLessonCompleted_iff:
  "isLessonCompleted l c u s \<longleftrightarrow>
     window_defined s \<and>
     (\<exists>i. findIndex (\<lambda>p. lp_lessonId p = l \<and> lp_courseId p = c \<and> (falsy u \<or> lp_userId p = u))
            (LESSON_PROGRESS s) = Some i \<and>
          isCompleted (LESSON_PROGRESS s ! i))"
  by (auto simp: isLessonCompleted_def getLessonProgress_def storage_defs find_findIndex
      split: option.splits)

lemma markLessonCompleted_lessons:
  assumes "window_defined s"
  shows "LESSON_PROGRESS (markLessonCompleted now l c u s) =
           (case findIndex (\<lambda>p. lp_lessonId p = l \<and> lp_courseId p = c \<and>
                                 (falsy u \<or> lp_userId p = u)) (LESSON_PROGRESS s) of
              Some i \<Rightarrow>
                (LESSON_PROGRESS s)[i :=
                   (LESSON_PROGRESS s ! i)
                     \<lparr>isCompleted := True, progressPercentage := 100,
                      completedAt := Some now, accessedAt := now\<rparr>]
            | None \<Rightarrow>
                LESSON_PROGRESS s @
                  [\<lparr>lp_lessonId = l, lp_courseId = c, lp_userId = u,
                    isCompleted = True, progressPercentage = 100, timeSpent = 0,
                    lastPosition = None, accessedAt = now, completedAt = Some now\<rparr>])"
  using assms unfolding markLessonCompleted_def storage_defs
  by (simp add: updateCourseProgress_frame split: option.splits)

lemma updateLessonProgress_lessons:
  assumes "window_defined s"
  shows "LESSON_PROGRESS (updateLessonProgress now l c upd u s) =
           (case findIndex (\<lambda>p. lp_lessonId p = l \<and> lp_courseId p = c \<and>
                                 (falsy u \<or> lp_userId p = u)) (LESSON_PROGRESS s) of
              Some i \<Rightarrow>
                (LESSON_PROGRESS s)[i :=
                   (spreadLessonProgress (LESSON_PROGRESS s ! i) upd)\<lparr>accessedAt := now\<rparr>]
            | None \<Rightarrow>
                LESSON_PROGRESS s @
                  [spreadLessonProgress
                     \<lparr>lp_lessonId = l, lp_courseId = c, lp_userId = u,
                      isCompleted = False, progressPercentage = 0, timeSpent = 0,
                      lastPosition = None, accessedAt = now, completedAt = None\<rparr> upd])"
  using assms unfolding updateLessonProgress_def storage_defs by simp


lemma isLessonCompleted_after_mark:
  assumes w: "window_defined s"
  shows "isLessonCompleted l c u (markLessonCompleted now l c u s)"
proof -
  let ?M = "\<lambda>p::LessonProgress. lp_lessonId p = l \<and> lp_courseId p = c \<and> (falsy u \<or> lp_userId p = u)"
  let ?xs = "LESSON_PROGRESS s"
  show ?thesis
  proof (cases "findIndex ?M ?xs")
    case None
    let ?z = "\<lparr>lp_lessonId = l, lp_courseId = c, lp_userId = u,
                    isCompleted = True, progressPercentage = 100, timeSpent = 0,
                    lastPosition = None, accessedAt = now, completedAt = Some now\<rparr>"
    have "findIndex ?M (?xs @ [?z]) = Some (length ?xs)"
      using None by (simp add: findIndex_append)
    with None w show ?thesis
      by (simp add: isLessonCompleted_iff markLessonCompleted_lessons markLessonCompleted_frame)
  next
    case (Some i)
    let ?y = "(?xs ! i)\<lparr>isCompleted := True, progressPercentage := 100,
                      completedAt := Some now, accessedAt := now\<rparr>"
    from findIndex_Some[OF Some] have i: "i < length ?xs" "?M (?xs ! i)" by auto
    then have "?M ?y" by simp
    with Some have "findIndex ?M (?xs[i := ?y]) = Some i"
      by (rule findIndex_update_same)
    with Some w i(1) show ?thesis
      by (simp add: isLessonCompleted_iff markLessonCompleted_lessons markLessonCompleted_frame)
  qed
qed

text \<open>
  Claim C4, amended. With the persistence surface available, after
  \<open>markLessonCompleted(lessonId, courseId, userId)\<close> the lesson is reported completed
  by \<open>isLessonCompleted\<close>. The course progress record of (courseId, userId) is
  updated only if it exists: its completed lessons are the former ones followed by
  \<open>lessonId\<close> unless that was already among them, so a zeroed record (as enrolling
  creates it) then has exactly \<open>[lessonId]\<close>. When the course had no progress
  entry before, none is created.
\<close>

theorem markLessonCompleted_effect:
  "window_defined s \<longrightarrow>
     isLessonCompleted l c u (markLessonCompleted now l c u s) \<and>
     map_option completedLessons (getCourseProgress c u (markLessonCompleted now l c u s)) =
       map_option
         (\<lambda>p. if l \<in> set (completedLessons p) then completedLessons p
              else completedLessons p @ [l])
         (getCourseProgress c u s)"
  by (simp add: isLessonCompleted_after_mark markLessonCompleted_courseProgress
      option.map_comp comp_def)

theorem markLessonCompleted_effect_witness:
  "window_defined enrolledStore \<and>
   map_option completedLessons (getCourseProgress 1 None enrolledStore) = Some [] \<and>
   isLessonCompleted 3 1 None (markLessonCompleted ''t1'' 3 1 None enrolledStore) \<and>
   map_option completedLessons
     (getCourseProgress 1 None (markLessonCompleted ''t1'' 3 1 None enrolledStore)) = Some [3]"
  using markLessonCompleted_effect [of enrolledStore 3 1 None "''t1''"]
  by (simp add: enrolledStore_def emptyStorage_def enrollInFreeCourse_def isEnrolledInCourse_def
      initializeCourseProgress_def getCourseProgress_def storage_defs falsy_def)

text \<open>
  The claim as it stands fails on the empty store: the update of the course progress is
  guarded by \<open>if (courseProgress)\<close>, so marking lesson 3 of course 1 leaves the
  course without a progress record.
\<close>

theorem markLessonCompleted_counterexample:
  "getCourseProgress 1 None emptyStorage = None \<and>
   getCourseProgress 1 None (markLessonCompleted ''t1'' 3 1 None emptyStorage) = None"
  by (simp add: emptyStorage_def markLessonCompleted_def getCourseProgress_def storage_defs)

text \<open>
  The percentage written with the new lesson is computed from the record as it was before
  the lesson was added: the first lesson completed after enrolling is stored with an
  overall progress of 0.
\<close>

lemma markLessonCompleted_progress_lags:
  "map_option overallProgress
     (getCourseProgress 1 None (markLessonCompleted ''t1'' 3 1 None enrolledStore)) = Some 0"
  by (simp add: enrolledStore_def emptyStorage_def enrollInFreeCourse_def isEnrolledInCourse_def
      initializeCourseProgress_def getCourseProgress_def markLessonCompleted_def
      updateCourseProgress_def calculateOverallProgress_def spreadCourseProgress_def
      noCourseUpdates_def spreadKey_def storage_defs falsy_def)

section \<open>Completion is kept by progress updates\<close>

lemma first_completed_update:
  assumes f: "findIndex M xs = Some i" and d: "isCompleted (xs ! i)"
    and j: "j < length xs" and k: "M y = M (xs ! j)"
    and c: "isCompleted (xs ! j) \<longrightarrow> isCompleted y"
  shows "findIndex M (xs[j := y]) = Some i \<and> isCompleted (xs[j := y] ! i)"
proof -
  have "map M (xs[j := y]) = map M xs"
    using j k by (simp add: map_update list_update_same_conv)
  then have "findIndex M (xs[j := y]) = findIndex M xs"
    by (rule findIndex_map_eq)
  moreover have "isCompleted (xs[j := y] ! i)"
    using d c j by (cases "i = j") simp_all
  ultimately show ?thesis using f by simp
qed

lemma first_completed_append:
  assumes f: "findIndex M xs = Some i" and d: "isCompleted (xs ! i)"
  shows "findIndex M (xs @ ys) = Some i \<and> isCompleted ((xs @ ys) ! i)"
  using f d findIndex_Some[OF f] by (simp add: findIndex_append nth_append)

lemma isLessonCompleted_kept:
  assumes dn: "isLessonCompleted l c u s"
    and ok: "keepsLessonKey (UpdateLessonProgress now l' c' upd u')"
  shows "isLessonCompleted l c u (updateLessonProgress now l' c' upd u' s)"
proof -
  let ?M = "\<lambda>p::LessonProgress. lp_lessonId p = l \<and> lp_courseId p = c \<and> (falsy u \<or> lp_userId p = u)"
  let ?M' = "\<lambda>p::LessonProgress. lp_lessonId p = l' \<and> lp_courseId p = c' \<and> (falsy u' \<or> lp_userId p = u')"
  let ?xs = "LESSON_PROGRESS s"
  from dn obtain i where w: "window_defined s"
    and f: "findIndex ?M ?xs = Some i" and d: "isCompleted (?xs ! i)"
    by (auto simp: isLessonCompleted_iff)
  show ?thesis
  proof (cases "findIndex ?M' ?xs")
    case None
    from first_completed_append[OF f d] None w show ?thesis
      by (simp add: isLessonCompleted_iff updateLessonProgress_lessons updateLessonProgress_frame)
  next
    case (Some j)
    let ?y = "(spreadLessonProgress (?xs ! j) upd)\<lparr>accessedAt := now\<rparr>"
    from findIndex_Some[OF Some] have j: "j < length ?xs" and mj: "?M' (?xs ! j)" by auto
    have "lp_lessonId ?y = lp_lessonId (?xs ! j)" "lp_courseId ?y = lp_courseId (?xs ! j)"
      "lp_userId ?y = lp_userId (?xs ! j)"
      using ok mj by (auto simp: spreadLessonProgress_def spreadKey_def)
    then have k: "?M ?y = ?M (?xs ! j)" by simp
    have c: "isCompleted (?xs ! j) \<longrightarrow> isCompleted ?y"
      using ok by (cases "v_isCompleted upd") (auto simp: spreadLessonProgress_def spreadKey_def)
    from first_completed_update[of ?M ?xs i j ?y, OF f d j k c] Some w show ?thesis
      by (simp add: isLessonCompleted_iff updateLessonProgress_lessons updateLessonProgress_frame)
  qed
qed

lemma isLessonCompleted_run:
  "isLessonCompleted l c u s \<Longrightarrow> \<forall>a\<in>set as. keepsLessonKey a \<Longrightarrow>
   isLessonCompleted l c u (run as s)"
proof (induction as arbitrary: s)
  case Nil
  then show ?case by simp
next
  case (Cons a as)
  from Cons.prems(2) have ka: "keepsLessonKey a" by simp
  then obtain now l' c' upd u' where a: "a = UpdateLessonProgress now l' c' upd u'"
    by (cases a) auto
  have "isLessonCompleted l c u (perform a s)"
    using isLessonCompleted_kept[OF Cons.prems(1) ka[unfolded a]] by (simp add: a)
  with Cons show ?case by simp
qed

text \<open>
  Claim C9, amended. With the persistence surface available, once
  \<open>markLessonCompleted(lessonId, courseId, userId)\<close> has been called,
  \<open>isLessonCompleted(lessonId, courseId, userId)\<close> returns true after any subsequent
  sequence of \<open>updateLessonProgress\<close> calls (for any lessons, courses and users) whose
  patches neither set the completed flag to false nor change the \<open>lessonId\<close>,
  \<open>courseId\<close> or \<open>userId\<close> of a record: they leave these keys out, or repeat
  the lesson id, the course id and the nonzero user id of their call.
\<close>

theorem completion_monotone:
  "window_defined s \<Longrightarrow> \<forall>a\<in>set as. keepsLessonKey a \<Longrightarrow>
   isLessonCompleted l c u (run as (markLessonCompleted now l c u s))"
  by (rule isLessonCompleted_run) (simp_all add: isLessonCompleted_after_mark)

theorem completion_monotone_witness:
  "window_defined emptyStorage \<and>
   list_all keepsLessonKey
     [UpdateLessonProgress ''t2'' 3 1 (noLessonUpdates\<lparr>v_timeSpent := Some 30\<rparr>) None] \<and>
   isLessonCompleted 3 1 None
     (run [UpdateLessonProgress ''t2'' 3 1 (noLessonUpdates\<lparr>v_timeSpent := Some 30\<rparr>) None]
        (markLessonCompleted ''t1'' 3 1 None emptyStorage))"
  using completion_monotone [of emptyStorage
      "[UpdateLessonProgress ''t2'' 3 1 (noLessonUpdates\<lparr>v_timeSpent := Some 30\<rparr>) None]"
      3 1 None "''t1''"]
  by (simp add: emptyStorage_def noLessonUpdates_def)

text \<open>
  The claim as it stands fails for a patch that leaves the completed flag alone but
  carries another lesson id: the spread writes it over the record's own, and the lesson
  that was marked completed has no record any more.
\<close>

theorem completion_monotone_counterexample:
  "v_isCompleted renumbering \<noteq> Some False \<and>
   isLessonCompleted 3 1 None (markLessonCompleted ''t1'' 3 1 None emptyStorage) \<and>
   \<not> isLessonCompleted 3 1 None
       (run [UpdateLessonProgress ''t2'' 3 1 renumbering None]
          (markLessonCompleted ''t1'' 3 1 None emptyStorage))"
  by (simp add: renumbering_def noLessonUpdates_def emptyStorage_def markLessonCompleted_def
      updateLessonProgress_def isLessonCompleted_def getLessonProgress_def getCourseProgress_def
      spreadLessonProgress_def spreadKey_def storage_defs falsy_def)

section \<open>Completed lessons are complete\<close>









section \<open>Merging remote progress\<close>

lemma spread_asUpdates: "spreadCourseProgress p (asUpdates m) = m"
  by (simp add: spreadCourseProgress_def asUpdates_def spreadKey_def)

lemma sync_getCourseProgress_merged:
  "remoteCapable sy \<Longrightarrow>
   sync_getCourseProgress now (Resolved True (Some sp)) c sy s =
     (Some (mergeProgress now c (userId sy) sp (getCourseProgress c (userId sy) s)),
      updateCourseProgress now c
        (asUpdates (mergeProgress now c (userId sy) sp (getCourseProgress c (userId sy) s)))
        (userId sy) s)"
  by (simp add: sync_getCourseProgress_def Let_def)

lemma getCourseProgress_window:
  "getCourseProgress c u s = Some p \<Longrightarrow> window_defined s"
  by (cases "window_defined s") (simp_all add: getCourseProgress_def storage_defs)

text \<open>
  Claim C1, amended. When the coordinator is online with a client and a user id and the
  remote \<open>getCourseProgress\<close> call succeeds with a progress object \<open>R\<close>, the
  coordinator's \<open>getCourseProgress\<close> returns a merged record \<open>m\<close> whose
  \<open>completedLessons\<close> are those of \<open>R\<close> whenever \<open>R\<close> has the key (also when
  the list is empty), else those of the local record \<open>L\<close>, else \<open>[]\<close> when there
  is no local record; likewise for \<open>completedQuizzes\<close> and
  \<open>completedAssignments\<close>. Its \<open>overallProgress\<close> is that of \<open>R\<close> when
  \<open>R\<close> has a nonzero one, else that of \<open>L\<close>, else 0. The merged record is
  written over the local record, with the access time refreshed, when a local record
  exists; without a local record nothing is stored.
\<close>

theorem merge_precedence:
  "remoteCapable sy \<longrightarrow>
     (\<exists>m. sync_getCourseProgress now (Resolved True (Some sp)) c sy s =
            (Some m, updateCourseProgress now c (asUpdates m) (userId sy) s) \<and>
        completedLessons m =
          (case s_completedLessons sp of
             Some xs \<Rightarrow> xs
           | None \<Rightarrow> (case getCourseProgress c (userId sy) s of
                        Some l \<Rightarrow> completedLessons l | None \<Rightarrow> [])) \<and>
        completedQuizzes m =
          (case s_completedQuizzes sp of
             Some xs \<Rightarrow> xs
           | None \<Rightarrow> (case getCourseProgress c (userId sy) s of
                        Some l \<Rightarrow> completedQuizzes l | None \<Rightarrow> [])) \<and>
        completedAssignments m =
          (case s_completedAssignments sp of
             Some xs \<Rightarrow> xs
           | None \<Rightarrow> (case getCourseProgress c (userId sy) s of
                        Some l \<Rightarrow> completedAssignments l | None \<Rightarrow> [])) \<and>
        overallProgress m =
          (if s_overallProgress sp \<noteq> None \<and> s_overallProgress sp \<noteq> Some 0
           then the (s_overallProgress sp)
           else (case getCourseProgress c (userId sy) s of
                   Some l \<Rightarrow> overallProgress l | None \<Rightarrow> 0)) \<and>
        (getCourseProgress c (userId sy) s \<noteq> None \<longrightarrow>
           getCourseProgress c (userId sy)
             (snd (sync_getCourseProgress now (Resolved True (Some sp)) c sy s)) =
             Some (m\<lparr>lastAccessed := now\<rparr>)) \<and>
        (getCourseProgress c (userId sy) s = None \<longrightarrow>
           snd (sync_getCourseProgress now (Resolved True (Some sp)) c sy s) = s))"
proof
  assume rc: "remoteCapable sy"
  let ?L = "getCourseProgress c (userId sy) s"
  let ?m = "mergeProgress now c (userId sy) sp ?L"
  note e = sync_getCourseProgress_merged[OF rc, of now sp c s]
  have keys: "cp_courseId ?m = c" "cp_userId ?m = userId sy"
    by (simp_all add: mergeProgress_def)
  have stored: "getCourseProgress c (userId sy)
                  (updateCourseProgress now c (asUpdates ?m) (userId sy) s) =
                Some (?m\<lparr>lastAccessed := now\<rparr>)" if "?L \<noteq> None"
  proof -
    from that obtain p where p: "?L = Some p" by auto
    from getCourseProgress_updated[OF getCourseProgress_window[OF p] p,
        where upd = "asUpdates ?m" and now = now]
    show ?thesis by (simp add: spread_asUpdates keys)
  qed
  have absent: "updateCourseProgress now c (asUpdates ?m) (userId sy) s = s" if "?L = None"
    using that by (rule updateCourseProgress_absent)
  have fields:
    "completedLessons ?m =
          (case s_completedLessons sp of
             Some xs \<Rightarrow> xs
           | None \<Rightarrow> (case ?L of Some l \<Rightarrow> completedLessons l | None \<Rightarrow> []))"
    "completedQuizzes ?m =
          (case s_completedQuizzes sp of
             Some xs \<Rightarrow> xs
           | None \<Rightarrow> (case ?L of Some l \<Rightarrow> completedQuizzes l | None \<Rightarrow> []))"
    "completedAssignments ?m =
          (case s_completedAssignments sp of
             Some xs \<Rightarrow> xs
           | None \<Rightarrow> (case ?L of Some l \<Rightarrow> completedAssignments l | None \<Rightarrow> []))"
    "overallProgress ?m =
          (if s_overallProgress sp \<noteq> None \<and> s_overallProgress sp \<noteq> Some 0
           then the (s_overallProgress sp)
           else (case ?L of Some l \<Rightarrow> overallProgress l | None \<Rightarrow> 0))"
    by (simp_all add: mergeProgress_def falsy_def split: option.splits)
  show "\<exists>m. sync_getCourseProgress now (Resolved True (Some sp)) c sy s =
            (Some m, updateCourseProgress now c (asUpdates m) (userId sy) s) \<and>
        completedLessons m =
          (case s_completedLessons sp of
             Some xs \<Rightarrow> xs
           | None \<Rightarrow> (case ?L of Some l \<Rightarrow> completedLessons l | None \<Rightarrow> [])) \<and>
        completedQuizzes m =
          (case s_completedQuizzes sp of
             Some xs \<Rightarrow> xs
           | None \<Rightarrow> (case ?L of Some l \<Rightarrow> completedQuizzes l | None \<Rightarrow> [])) \<and>
        completedAssignments m =
          (case s_completedAssignments sp of
             Some xs \<Rightarrow> xs
           | None \<Rightarrow> (case ?L of Some l \<Rightarrow> completedAssignments l | None \<Rightarrow> [])) \<and>
        overallProgress m =
          (if s_overallProgress sp \<noteq> None \<and> s_overallProgress sp \<noteq> Some 0
           then the (s_overallProgress sp)
           else (case ?L of Some l \<Rightarrow> overallProgress l | None \<Rightarrow> 0)) \<and>
        (?L \<noteq> None \<longrightarrow>
           getCourseProgress c (userId sy)
             (snd (sync_getCourseProgress now (Resolved True (Some sp)) c sy s)) =
             Some (m\<lparr>lastAccessed := now\<rparr>)) \<and>
        (?L = None \<longrightarrow>
           snd (sync_getCourseProgress now (Resolved True (Some sp)) c sy s) = s)"
    apply (rule exI[of _ ?m])
    unfolding e
    using fields stored absent by simp
qed

theorem merge_precedence_witness:
  "remoteCapable onlineSync \<and>
   getCourseProgress 10 (Some 1) lessonDoneStore \<noteq> None \<and>
   map_option completedLessons
     (fst (sync_getCourseProgress ''t2''
             (Resolved True (Some (noServerProgress\<lparr>s_completedLessons := Some [3, 4]\<rparr>)))
             10 onlineSync lessonDoneStore)) = Some [3, 4] \<and>
   map_option completedLessons
     (getCourseProgress 10 (Some 1)
        (snd (sync_getCourseProgress ''t2''
             (Resolved True (Some (noServerProgress\<lparr>s_completedLessons := Some [3, 4]\<rparr>)))
             10 onlineSync lessonDoneStore))) = Some [3, 4]"
  using merge_precedence [of onlineSync "''t2''"
      "noServerProgress\<lparr>s_completedLessons := Some [3, 4]\<rparr>" 10 lessonDoneStore]
  by (simp add: lessonDoneStore_def onlineSync_def noServerProgress_def emptyStorage_def
      enrollInFreeCourse_def isEnrolledInCourse_def initializeCourseProgress_def
      markLessonCompleted_def updateCourseProgress_def calculateOverallProgress_def
      getCourseProgress_def sync_getCourseProgress_def mergeProgress_def remoteCapable_def
      spreadCourseProgress_def noCourseUpdates_def asUpdates_def spreadKey_def storage_defs
      falsy_def)

text \<open>
  The claim as it stands fails when the remote answer carries an empty list: an empty
  array is truthy, so \<open>serverProgress.completedLessons || \<dots>\<close> keeps it, and the
  merged record has no completed lessons although the local record has lesson 3.
\<close>

theorem merge_precedence_counterexample:
  "map_option completedLessons (getCourseProgress 10 (Some 1) lessonDoneStore) = Some [3] \<and>
   s_completedLessons (noServerProgress\<lparr>s_completedLessons := Some []\<rparr>) = Some [] \<and>
   map_option completedLessons
     (fst (sync_getCourseProgress ''t2''
             (Resolved True (Some (noServerProgress\<lparr>s_completedLessons := Some []\<rparr>)))
             10 onlineSync lessonDoneStore)) = Some []"
  by (simp add: lessonDoneStore_def onlineSync_def noServerProgress_def emptyStorage_def
      enrollInFreeCourse_def isEnrolledInCourse_def initializeCourseProgress_def
      markLessonCompleted_def updateCourseProgress_def calculateOverallProgress_def
      getCourseProgress_def sync_getCourseProgress_def mergeProgress_def remoteCapable_def
      spreadCourseProgress_def noCourseUpdates_def spreadKey_def storage_defs falsy_def)

section \<open>The progress bound\<close>

lemma calculateOverallProgress_bounds:
  "0 \<le> calculateOverallProgress c u s \<and> calculateOverallProgress c u s \<le> 100"
proof (cases "getCourseProgress c u s")
  case None
  then show ?thesis by (simp add: calculateOverallProgress_def)
next
  case (Some p)
  define t where "t = int (length (completedLessons p)) + int (length (completedQuizzes p)) +
                      int (length (completedAssignments p))"
  have t: "0 \<le> t" by (simp add: t_def)
  then have "0 \<le> (200 * t + max t 10) div (2 * max t 10)"
    by (intro pos_imp_zdiv_nonneg_iff[THEN iffD2]) auto
  with Some show ?thesis
    by (simp add: calculateOverallProgress_def Let_def t_def)
qed

lemma updateCourseProgress_courses:
  "COURSE_PROGRESS (updateCourseProgress now c upd u s) =
     (case (if window_defined s
            then findIndex (\<lambda>p. cp_courseId p = c \<and> (falsy u \<or> cp_userId p = u))
                   (COURSE_PROGRESS s)
            else None) of
        None \<Rightarrow> COURSE_PROGRESS s
      | Some i \<Rightarrow>
          (COURSE_PROGRESS s)[i :=
            (spreadCourseProgress (COURSE_PROGRESS s ! i) upd)\<lparr>lastAccessed := now\<rparr>])"
  unfolding updateCourseProgress_def storage_defs by (simp split: option.splits)

lemma progressBounded_updateCourse:
  assumes inv: "progressBounded s" and r: "inRange (u_overallProgress upd)"
  shows "progressBounded (updateCourseProgress now c upd u s)"
proof (cases "if window_defined s
            then findIndex (\<lambda>p. cp_courseId p = c \<and> (falsy u \<or> cp_userId p = u))
                   (COURSE_PROGRESS s)
            else None")
  case None
  with inv show ?thesis by (simp add: progressBounded_def updateCourseProgress_courses)
next
  case (Some i)
  let ?xs = "COURSE_PROGRESS s"
  let ?y = "(spreadCourseProgress (?xs ! i) upd)\<lparr>lastAccessed := now\<rparr>"
  from Some have "findIndex (\<lambda>p. cp_courseId p = c \<and> (falsy u \<or> cp_userId p = u)) ?xs = Some i"
    by (simp split: if_splits)
  from findIndex_Some[OF this] have "?xs ! i \<in> set ?xs" by simp
  with inv have "0 \<le> overallProgress (?xs ! i) \<and> overallProgress (?xs ! i) \<le> 100"
    by (simp add: progressBounded_def)
  with r have y: "0 \<le> overallProgress ?y \<and> overallProgress ?y \<le> 100"
    by (cases "u_overallProgress upd")
      (simp_all add: spreadCourseProgress_def spreadKey_def inRange_def)
  have "set (?xs[i := ?y]) \<subseteq> insert ?y (set ?xs)"
    by (rule set_update_subset_insert)
  with inv y have "\<forall>p\<in>set (?xs[i := ?y]). 0 \<le> overallProgress p \<and> overallProgress p \<le> 100"
    unfolding progressBounded_def by blast
  with Some show ?thesis
    by (simp add: progressBounded_def updateCourseProgress_courses)
qed

lemma progressBounded_cong:
  "COURSE_PROGRESS s' = COURSE_PROGRESS s \<Longrightarrow> progressBounded s' = progressBounded s"
  by (simp add: progressBounded_def)

lemma progressBounded_initialize:
  "progressBounded s \<Longrightarrow> progressBounded (initializeCourseProgress now c u s)"
  unfolding initializeCourseProgress_def storage_defs progressBounded_def by auto

lemma progressBounded_remove:
  "progressBounded s \<Longrightarrow> progressBounded (removeCourseProgress c u s)"
  unfolding removeCourseProgress_def storage_defs progressBounded_def by auto

lemma progressBounded_enroll:
  assumes inv: "progressBounded s"
  shows "progressBounded (snd (enrollInFreeCourse now c u s))"
proof -
  have "progressBounded (setStorageData (\<lambda>w. w\<lparr>ENROLLMENTS := es\<rparr>) s)" for es
    using inv by (simp add: progressBounded_def setStorageData_def)
  then have "progressBounded
      (initializeCourseProgress now c u (setStorageData (\<lambda>w. w\<lparr>ENROLLMENTS := es\<rparr>) s))" for es
    by (rule progressBounded_initialize)
  with inv show ?thesis
    by (simp add: enrollInFreeCourse_def Let_def)
qed

lemma progressBounded_unenroll:
  assumes inv: "progressBounded s"
  shows "progressBounded (snd (unenrollFromCourse c u s))"
proof -
  have "progressBounded (setStorageData (\<lambda>w. w\<lparr>ENROLLMENTS := es\<rparr>) s)" for es
    using inv by (simp add: progressBounded_def setStorageData_def)
  then have "progressBounded
      (removeCourseProgress c u (setStorageData (\<lambda>w. w\<lparr>ENROLLMENTS := es\<rparr>) s))" for es
    by (rule progressBounded_remove)
  then show ?thesis
    by (simp add: unenrollFromCourse_def Let_def)
qed

lemma progressBounded_mark:
  assumes inv: "progressBounded s"
  shows "progressBounded (markLessonCompleted now l c u s)"
proof -
  have r: "inRange (u_overallProgress (noCourseUpdates\<lparr>u_completedLessons := Some xs,
             u_overallProgress := Some (calculateOverallProgress c u s1)\<rparr>))" for xs s1
    using calculateOverallProgress_bounds[of c u s1] by (simp add: inRange_def)
  have b: "progressBounded (setStorageData (\<lambda>w. w\<lparr>LESSON_PROGRESS := ys\<rparr>) s)" for ys
    using inv by (simp add: progressBounded_def setStorageData_def)
  show ?thesis
    unfolding markLessonCompleted_def Let_def
    by (auto split: option.splits intro!: progressBounded_updateCourse r b)
qed

lemma getCourseProgress_member:
  "getCourseProgress c u s = Some p \<Longrightarrow> p \<in> set (COURSE_PROGRESS s)"
  by (cases "window_defined s") (auto simp: getCourseProgress_def storage_defs find_Some_iff)

lemma mergeProgress_bounded:
  assumes inv: "progressBounded s" and r: "inRange (s_overallProgress sp)"
  shows "0 \<le> overallProgress (mergeProgress now c uid sp (getCourseProgress c' u' s)) \<and>
         overallProgress (mergeProgress now c uid sp (getCourseProgress c' u' s)) \<le> 100"
proof (cases "getCourseProgress c' u' s")
  case None
  with r show ?thesis
    by (cases "s_overallProgress sp") (simp_all add: mergeProgress_def inRange_def falsy_def)
next
  case (Some p)
  from getCourseProgress_member[OF Some] inv
  have "0 \<le> overallProgress p \<and> overallProgress p \<le> 100"
    by (simp add: progressBounded_def)
  with Some r show ?thesis
    by (cases "s_overallProgress sp") (simp_all add: mergeProgress_def inRange_def falsy_def)
qed

lemma progressBounded_sync_get:
  assumes inv: "progressBounded s" and ok: "suppliesBoundedProgress (SyncGetCourseProgress now r c sy)"
  shows "progressBounded (snd (sync_getCourseProgress now r c sy s))"
proof -
  from sync_getCourseProgress_storage[of now r c sy s]
  show ?thesis
  proof
    assume "snd (sync_getCourseProgress now r c sy s) = s"
    with inv show ?thesis by simp
  next
    assume "\<exists>sp. r = Resolved True (Some sp) \<and>
      snd (sync_getCourseProgress now r c sy s) =
        updateCourseProgress now c
          (asUpdates (mergeProgress now c (userId sy) sp (getCourseProgress c (userId sy) s)))
          (userId sy) s"
    then obtain sp where sp: "r = Resolved True (Some sp)"
      and e: "snd (sync_getCourseProgress now r c sy s) =
        updateCourseProgress now c
          (asUpdates (mergeProgress now c (userId sy) sp (getCourseProgress c (userId sy) s)))
          (userId sy) s" by blast
    from ok sp have "inRange (s_overallProgress sp)" by simp
    from mergeProgress_bounded[OF inv this, of now c "userId sy" c "userId sy"]
    have "inRange (u_overallProgress
            (asUpdates (mergeProgress now c (userId sy) sp (getCourseProgress c (userId sy) s))))"
      by (simp add: asUpdates_def inRange_def)
    with inv show ?thesis unfolding e by (rule progressBounded_updateCourse)
  qed
qed

lemma progressBounded_perform:
  assumes "progressBounded s" "suppliesBoundedProgress a"
  shows "progressBounded (perform a s)"
proof (cases a)
  case (UpdateCourseProgress now c upd u)
  with assms show ?thesis by (simp add: progressBounded_updateCourse)
next
  case (UpdateLessonProgress now l c upd u)
  with assms show ?thesis
    by (simp add: progressBounded_cong[OF updateLessonProgress_frame(2)])
next
  case ResetAllCourseData
  with assms show ?thesis by (simp add: resetAllCourseData_def progressBounded_def)
next
  case (SyncIsEnrolledInCourse now r c sy)
  with assms sync_isEnrolledInCourse_storage[of now r c sy s] show ?thesis
    by (auto simp: progressBounded_enroll)
next
  case (SyncGetCourseProgress now r c sy)
  with assms show ?thesis by (simp add: progressBounded_sync_get)
qed (use assms in \<open>simp_all add: progressBounded_enroll progressBounded_unenroll
      progressBounded_initialize progressBounded_remove progressBounded_mark
      sync_enrollInFreeCourse_storage sync_markLessonCompleted_storage\<close>)

lemma progressBounded_run:
  "progressBounded s \<Longrightarrow> \<forall>a\<in>set as. suppliesBoundedProgress a \<Longrightarrow> progressBounded (run as s)"
  by (induction as arbitrary: s) (simp_all add: progressBounded_perform)

lemma sync_getCourseProgress_result:
  "fst (sync_getCourseProgress now r c sy s) = getCourseProgress c (userId sy) s \<or>
   (\<exists>sp. r = Resolved True (Some sp) \<and>
      fst (sync_getCourseProgress now r c sy s) =
        Some (mergeProgress now c (userId sy) sp (getCourseProgress c (userId sy) s)))"
  by (simp add: sync_getCourseProgress_def Let_def split: ApiResponse.splits option.splits)

text \<open>
  Claim C6, amended. The derived computation \<open>calculateOverallProgress\<close> always
  returns a value from 0 to 100. If every course progress record of a store has an overall
  progress from 0 to 100 (as in the empty store), then so has every record after any
  sequence of calls of the store and of the coordinator in which every overall progress
  handed in from outside lies in that range: the one in a patch of
  \<open>updateCourseProgress\<close> and the one in a successful remote answer merged by the
  coordinator's \<open>getCourseProgress\<close>; and then the record that the coordinator's
  \<open>getCourseProgress\<close> returns is in that range too.
\<close>

theorem progress_bound:
  "0 \<le> calculateOverallProgress c u s \<and> calculateOverallProgress c u s \<le> 100 \<and>
   (progressBounded s \<and> (\<forall>a\<in>set as. suppliesBoundedProgress a) \<longrightarrow>
      progressBounded (run as s)) \<and>
   (progressBounded s \<and> suppliesBoundedProgress (SyncGetCourseProgress now r c sy) \<longrightarrow>
      (\<forall>m. fst (sync_getCourseProgress now r c sy s) = Some m \<longrightarrow>
         0 \<le> overallProgress m \<and> overallProgress m \<le> 100))"
proof -
  have ret: "0 \<le> overallProgress m \<and> overallProgress m \<le> 100"
    if inv: "progressBounded s" and ok: "suppliesBoundedProgress (SyncGetCourseProgress now r c sy)"
      and m: "fst (sync_getCourseProgress now r c sy s) = Some m" for m
  proof -
    from sync_getCourseProgress_result[of now r c sy s] show ?thesis
    proof
      assume "fst (sync_getCourseProgress now r c sy s) = getCourseProgress c (userId sy) s"
      with m have "getCourseProgress c (userId sy) s = Some m" by simp
      from getCourseProgress_member[OF this] inv show ?thesis
        by (simp add: progressBounded_def)
    next
      assume "\<exists>sp. r = Resolved True (Some sp) \<and>
        fst (sync_getCourseProgress now r c sy s) =
          Some (mergeProgress now c (userId sy) sp (getCourseProgress c (userId sy) s))"
      then obtain sp where sp: "r = Resolved True (Some sp)"
        and e: "fst (sync_getCourseProgress now r c sy s) =
          Some (mergeProgress now c (userId sy) sp (getCourseProgress c (userId sy) s))"
        by blast
      from ok sp have "inRange (s_overallProgress sp)" by simp
      from mergeProgress_bounded[OF inv this, of now c "userId sy" c "userId sy"] e m
      show ?thesis by simp
    qed
  qed
  from calculateOverallProgress_bounds[of c u s] progressBounded_run[of s as] ret
  show ?thesis by blast
qed

theorem progress_bound_witness:
  "progressBounded emptyStorage \<and>
   list_all suppliesBoundedProgress
     [EnrollInFreeCourse ''t0'' 10 (Some 1), MarkLessonCompleted ''t1'' 3 10 (Some 1)] \<and>
   progressBounded
     (run [EnrollInFreeCourse ''t0'' 10 (Some 1), MarkLessonCompleted ''t1'' 3 10 (Some 1)]
        emptyStorage) \<and>
   suppliesBoundedProgress
     (SyncGetCourseProgress ''t2''
        (Resolved True (Some (noServerProgress\<lparr>s_overallProgress := Some 40\<rparr>))) 10 onlineSync) \<and>
   map_option overallProgress
     (fst (sync_getCourseProgress ''t2''
        (Resolved True (Some (noServerProgress\<lparr>s_overallProgress := Some 40\<rparr>))) 10 onlineSync
        emptyStorage)) = Some 40"
  using progress_bound [of 10 "Some 1" emptyStorage
      "[EnrollInFreeCourse ''t0'' 10 (Some 1), MarkLessonCompleted ''t1'' 3 10 (Some 1)]"
      "''t2''" "Resolved True (Some (noServerProgress\<lparr>s_overallProgress := Some 40\<rparr>))"
      onlineSync]
  by (simp add: progressBounded_def inRange_def emptyStorage_def noServerProgress_def
      onlineSync_def sync_getCourseProgress_def mergeProgress_def remoteCapable_def
      getCourseProgress_def storage_defs falsy_def)

text \<open>
  The claim as it stands fails in the merge: the remote overall progress is taken over as
  it is, so a remote answer of 150 is returned and stored.
\<close>

theorem progress_bound_counterexample:
  "map_option overallProgress
     (fst (sync_getCourseProgress ''t2''
        (Resolved True (Some (noServerProgress\<lparr>s_overallProgress := Some 150\<rparr>))) 10 onlineSync
        lessonDoneStore)) = Some 150 \<and>
   map_option overallProgress
     (getCourseProgress 10 (Some 1)
        (snd (sync_getCourseProgress ''t2''
           (Resolved True (Some (noServerProgress\<lparr>s_overallProgress := Some 150\<rparr>))) 10
           onlineSync lessonDoneStore))) = Some 150"
  by (simp add: lessonDoneStore_def onlineSync_def noServerProgress_def emptyStorage_def
      enrollInFreeCourse_def isEnrolledInCourse_def initializeCourseProgress_def
      markLessonCompleted_def updateCourseProgress_def calculateOverallProgress_def
      getCourseProgress_def sync_getCourseProgress_def mergeProgress_def remoteCapable_def
      spreadCourseProgress_def noCourseUpdates_def asUpdates_def spreadKey_def storage_defs
      falsy_def)

end
